theory Spec2Isabelle
  imports Complex_Main "HOL-Library.Char_ord" "HOL-Library.List_Lexorder" "HOL-Library.Sublist"
begin

section \<open>Errors raised by the notebook and by the libraries it calls\<close>

text \<open>
  Every Python exception that the modelled cells can meet is a value of \<open>error\<close>.
  \<open>ValueError\<close> is the one exception the notebook raises itself (in
  \<open>plot_feature_importance\<close>); the others come from the libraries: a missing
  column label, a tensor the trial does not know, a step at which a
  tensor has no value, and a pattern that \<open>re\<close> would have to interpret outside the
  fragment of regular expressions modelled below.
\<close>

datatype error =
    ValueError string
  | KeyError string
  | TensorUnavailable string
  | StepUnavailable nat
  | PatternOutsideFragment string

section \<open>The tensor trial and the chart\<close>

text \<open>
  A tensor of the trial: \<open>tensor.steps()\<close> is the list of steps with data and
  \<open>tensor.value(s)\<close> the value saved at step \<open>s\<close>, which raises when the store has
  none. The type of the values (NumPy arrays in the notebook) is left open.
\<close>

record 'v tensor =
  steps :: "nat list"
  val :: "nat \<rightharpoonup> 'v"

text \<open>
  The trial: \<open>tensor\<close> is what \<open>trial.tensor(name)\<close> finds, and \<open>collection\<close> holds the
  tensor names of the collections that the training job saved. A \<open>tensor_names\<close> is a
  Python set; the list enumerates it in no particular order.
\<close>

record 'v trial =
  tensor :: "string \<rightharpoonup> 'v tensor"
  collection :: "string \<rightharpoonup> string list"

text \<open>
  \<open>trial.collection(name).tensor_names\<close>. For a name that the trial does not know,
  \<open>trial.collection\<close> does not raise: it makes a new, empty collection, which the client
  keeps in memory; nothing is written to the store.
\<close>

definition tensor_names :: "'v trial \<Rightarrow> string \<Rightarrow> string list" where
  "tensor_names T name = (case collection T name of None \<Rightarrow> [] | Some names \<Rightarrow> names)"

text \<open>What the plotting calls do to the figure, in the order of the calls.\<close>

datatype 'v draw =
    Subplots "nat \<times> nat"
  | Despine
  | Plot string "nat list" "'v list"
  | Legend
  | SetXLabel string

text \<open>
  The state the functions of the analysis cells run in: the store behind the trial
  handle and the drawing calls made so far. An exception leaves the state as it was
  when it was raised, so every function returns its result together with the state.
\<close>

record 'v session =
  store :: "'v trial"
  canvas :: "'v draw list"

subsection \<open>get_data\<close>

text \<open>The comprehension \<open>[tensor.value(s) for s in steps]\<close>: the first failing step raises.\<close>

fun values_at :: "'v tensor \<Rightarrow> nat list \<Rightarrow> error + 'v list" where
  "values_at t [] = Inr []"
| "values_at t (s # ss) =
     (case val t s of
        None \<Rightarrow> Inl (StepUnavailable s)
      | Some v \<Rightarrow> (case values_at t ss of Inl e \<Rightarrow> Inl e | Inr vs \<Rightarrow> Inr (v # vs)))"

definition get_data :: "'v session \<Rightarrow> string \<Rightarrow> (error + nat list \<times> 'v list) \<times> 'v session" where
  "get_data S tname =
     (case tensor (store S) tname of
        None \<Rightarrow> (Inl (TensorUnavailable tname), S)
      | Some t \<Rightarrow>
          (let sts = steps t in
           case values_at t sts of
             Inl e \<Rightarrow> (Inl e, S)
           | Inr vals \<Rightarrow> (Inr (sts, vals), S)))"

subsection \<open>re.match, on the fragment of patterns the notebook uses\<close>

text \<open>
  The patterns of the notebook are \<open>'.*'\<close> and \<open>feature_importance/<type>/.*\<close>:
  ordinary characters, the dot and the star. A pattern is compiled to a list of items;
  a pattern using any other special character of \<open>re\<close> (or a star with nothing to
  repeat) is outside the fragment and compiles to \<open>None\<close>.
\<close>

datatype atom = Lit char | AnyChar

datatype item = One atom | Star atom

definition special_chars :: "char list" where
  "special_chars = ''.^$*+?{}[]|()'' @ [CHR 0x5C]"

definition atom_of :: "char \<Rightarrow> atom option" where
  "atom_of c =
     (if c = CHR ''.'' then Some AnyChar
      else if c \<in> set special_chars then None
      else Some (Lit c))"

fun re_compile :: "string \<Rightarrow> item list option" where
  "re_compile [] = Some []"
| "re_compile (c # cs) =
     (case atom_of c of
        None \<Rightarrow> None
      | Some a \<Rightarrow>
          (case cs of
             [] \<Rightarrow> Some [One a]
           | d # ds \<Rightarrow>
               if d = CHR ''*'' then map_option (\<lambda>p. Star a # p) (re_compile ds)
               else map_option (\<lambda>p. One a # p) (re_compile cs)))"

text \<open>The dot matches every character but the newline (no flag is passed).\<close>

fun atom_matches :: "atom \<Rightarrow> char \<Rightarrow> bool" where
  "atom_matches (Lit d) c = (c = d)"
| "atom_matches AnyChar c = (c \<noteq> CHR 0x0A)"

text \<open>
  \<open>match_here p s\<close>: the pattern matches at the start of \<open>s\<close>. \<open>re.match\<close> does not
  require the match to reach the end of the string.
\<close>

fun match_here :: "item list \<Rightarrow> string \<Rightarrow> bool" where
  "match_here [] s = True"
| "match_here (One a # p) s =
     (case s of [] \<Rightarrow> False | c # cs \<Rightarrow> atom_matches a c \<and> match_here p cs)"
| "match_here (Star a # p) s =
     (match_here p s \<or>
      (case s of [] \<Rightarrow> False | c # cs \<Rightarrow> atom_matches a c \<and> match_here (Star a # p) cs))"

definition re_match :: "string \<Rightarrow> string \<Rightarrow> error + bool" where
  "re_match regex s =
     (case re_compile regex of
        None \<Rightarrow> Inl (PatternOutsideFragment regex)
      | Some p \<Rightarrow> Inr (match_here p s))"

subsection \<open>plot_collection\<close>

text \<open>
  The body of the loop over \<open>sorted(tensors)\<close>: a matching tensor is fetched and plotted
  with its name as label; an exception ends the loop.
\<close>

fun plot_loop :: "'v session \<Rightarrow> string \<Rightarrow> string list \<Rightarrow> (error + unit) \<times> 'v session" where
  "plot_loop S regex [] = (Inr (), S)"
| "plot_loop S regex (tensor_name # rest) =
     (case re_match regex tensor_name of
        Inl e \<Rightarrow> (Inl e, S)
      | Inr False \<Rightarrow> plot_loop S regex rest
      | Inr True \<Rightarrow>
          (case get_data S tensor_name of
             (Inl e, S') \<Rightarrow> (Inl e, S')
           | (Inr (sts, data), S') \<Rightarrow>
               plot_loop (S'\<lparr>canvas := canvas S' @ [Plot tensor_name sts data]\<rparr>) regex rest))"

definition plot_collection ::
  "'v session \<Rightarrow> string \<Rightarrow> string \<Rightarrow> nat \<times> nat \<Rightarrow> (error + unit) \<times> 'v session" where
  "plot_collection S collection_name regex figsize =
     (let S1 = S\<lparr>canvas := canvas S @ [Subplots figsize, Despine]\<rparr>;
          tensors = tensor_names (store S1) collection_name
      in case plot_loop S1 regex (sort (remdups tensors)) of
           (Inl e, S2) \<Rightarrow> (Inl e, S2)
         | (Inr u, S2) \<Rightarrow>
             (Inr (), S2\<lparr>canvas := canvas S2 @ [Legend, SetXLabel ''Iteration'']\<rparr>))"

subsection \<open>plot_feature_importance\<close>

definition SUPPORTED_IMPORTANCE_TYPES :: "string list" where
  "SUPPORTED_IMPORTANCE_TYPES = [''weight'', ''gain'', ''cover'', ''total_gain'', ''total_cover'']"

definition plot_feature_importance :: "'v session \<Rightarrow> string \<Rightarrow> (error + unit) \<times> 'v session" where
  "plot_feature_importance S importance_type =
     (if importance_type \<notin> set SUPPORTED_IMPORTANCE_TYPES
      then (Inl (ValueError (importance_type @ '' is not one of the supported importance types.'')), S)
      else plot_collection S ''feature_importance''
             (''feature_importance/'' @ importance_type @ ''/.*'') (8, 6))"

subsection \<open>What a run has plotted, and when a tensor can be read\<close>

text \<open>The labels of the lines drawn on a canvas, in drawing order.\<close>

primrec label_of :: "'v draw \<Rightarrow> string list" where
  "label_of (Subplots f) = []"
| "label_of Despine = []"
| "label_of (Plot n sts data) = [n]"
| "label_of Legend = []"
| "label_of (SetXLabel l) = []"

definition plot_labels :: "'v draw list \<Rightarrow> string list" where
  "plot_labels ds = concat (map label_of ds)"

text \<open>The labels drawn between the state \<open>S\<close> before a call and the state \<open>S'\<close> after it.\<close>

definition plotted :: "'v session \<Rightarrow> 'v session \<Rightarrow> string list" where
  "plotted S S' = drop (length (plot_labels (canvas S))) (plot_labels (canvas S'))"

text \<open>
  A tensor can be read when the trial knows it and has a value at each step it lists:
  then neither \<open>trial.tensor\<close> nor \<open>tensor.value\<close> raises.
\<close>

definition readable :: "'v trial \<Rightarrow> string \<Rightarrow> bool" where
  "readable T n = (case tensor T n of None \<Rightarrow> False | Some t \<Rightarrow> list_all (\<lambda>s. val t s \<noteq> None) (steps t))"

subsection \<open>A small trial to run the functions on\<close>

definition example_trial :: "int trial" where
  "example_trial =
     \<lparr>tensor = [''feature_importance/gain/f1'' \<mapsto> \<lparr>steps = [0, 2], val = [0 \<mapsto> 5, 2 \<mapsto> 7]\<rparr>,
                ''feature_importance/total_gain/f0'' \<mapsto> \<lparr>steps = [0], val = [0 \<mapsto> 9]\<rparr>,
                ''feature_importance/gain/f0'' \<mapsto> \<lparr>steps = [0, 2], val = [0 \<mapsto> 1, 2 \<mapsto> 3]\<rparr>],
      collection = [''feature_importance'' \<mapsto>
                [''feature_importance/gain/f1'', ''feature_importance/total_gain/f0'',
                 ''feature_importance/gain/f0'']]\<rparr>"

definition example_session :: "int session" where
  "example_session = \<lparr>store = example_trial, canvas = []\<rparr>"

section \<open>The status cell: polling the training job\<close>

text \<open>
  What \<open>describe_training_job\<close> returns, as far as the cell reads it: the two status
  fields.
\<close>

record description =
  TrainingJobStatus :: string
  SecondaryStatus :: string

text \<open>
  The training service as the cell sees it. \<open>responses\<close> is what the service answers to
  the first, second, ... call of \<open>describe_training_job\<close>; it is decided by the service,
  not by the notebook. \<open>calls\<close> counts the calls made and \<open>slept\<close> the seconds spent in
  \<open>time.sleep\<close>. The printed lines carry the wall-clock time and are left out.
\<close>

record service =
  responses :: "nat \<Rightarrow> description"
  calls :: nat
  slept :: nat

definition describe_training_job :: "service \<Rightarrow> description \<times> service" where
  "describe_training_job w = (responses w (calls w), w\<lparr>calls := calls w + 1\<rparr>)"

definition sleep :: "nat \<Rightarrow> service \<Rightarrow> service" where
  "sleep secs w = w\<lparr>slept := slept w + secs\<rparr>"

text \<open>
  The \<open>while\<close> loop. Nothing bounds the number of its iterations, so it is a partial
  function: \<open>None\<close> is the loop that never exits.
\<close>

partial_function (option) poll_loop :: "service \<Rightarrow> description \<Rightarrow> (description \<times> service) option" where
  "poll_loop w description =
     (if SecondaryStatus description \<notin> set [''Training'', ''Completed'']
      then (case describe_training_job w of
              (description', w') \<Rightarrow> poll_loop (sleep 15 w') description')
      else Some (description, w))"

definition status_cell :: "service \<Rightarrow> (description \<times> service) option" where
  "status_cell w =
     (case describe_training_job w of
        (description, w1) \<Rightarrow>
          if TrainingJobStatus description \<noteq> ''Completed''
          then poll_loop w1 description
          else Some (description, w1))"


text \<open>A job that is seen starting, then downloading its data, then training.\<close>

definition example_responses :: "nat \<Rightarrow> description" where
  "example_responses k =
     (if k = 0 then \<lparr>TrainingJobStatus = ''InProgress'', SecondaryStatus = ''Starting''\<rparr>
      else if k = 1 then \<lparr>TrainingJobStatus = ''InProgress'', SecondaryStatus = ''Downloading''\<rparr>
      else \<lparr>TrainingJobStatus = ''InProgress'', SecondaryStatus = ''Training''\<rparr>)"

definition example_service :: service where
  "example_service = \<lparr>responses = example_responses, calls = 0, slept = 0\<rparr>"

text \<open>A job that has failed before the cell runs: every description says so.\<close>

definition failed_service :: service where
  "failed_service =
     \<lparr>responses = (\<lambda>k. \<lparr>TrainingJobStatus = ''Failed'', SecondaryStatus = ''Failed''\<rparr>),
      calls = 0, slept = 0\<rparr>"

section \<open>The data cells: tables\<close>

text \<open>
  A pandas column has one dtype: numbers, or \<open>object\<close> (the strings of a categorical
  feature). The numbers of the data set are finite decimals, so they are rationals; the
  data set has no missing value.
\<close>

datatype column = NumCol "rat list" | StrCol "string list"

text \<open>
  A table: the row labels and the labelled columns, in their order. pandas keeps every
  column as long as the index; \<open>well_formed\<close> says so.
\<close>

record dataframe =
  index :: "nat list"
  columns :: "(string \<times> column) list"

fun col_len :: "column \<Rightarrow> nat" where
  "col_len (NumCol xs) = length xs"
| "col_len (StrCol xs) = length xs"

definition nrows :: "dataframe \<Rightarrow> nat" where
  "nrows df = length (index df)"

definition col_names :: "dataframe \<Rightarrow> string list" where
  "col_names df = map fst (columns df)"

definition well_formed :: "dataframe \<Rightarrow> bool" where
  "well_formed df = list_all (\<lambda>(n, c). col_len c = nrows df) (columns df)"

fun is_object :: "column \<Rightarrow> bool" where
  "is_object (StrCol xs) = True"
| "is_object (NumCol xs) = False"

text \<open>
  The rows of a table: the row at a position is its label with, for every column, the
  column label and the value at that position. \<open>rows\<close> lists them in table order.
\<close>

datatype cell = Num rat | Str string

fun cell_at :: "column \<Rightarrow> nat \<Rightarrow> cell" where
  "cell_at (NumCol xs) i = Num (xs ! i)"
| "cell_at (StrCol xs) i = Str (xs ! i)"

definition row_at :: "dataframe \<Rightarrow> nat \<Rightarrow> nat \<times> (string \<times> cell) list" where
  "row_at df i = (index df ! i, map (\<lambda>(n, c). (n, cell_at c i)) (columns df))"

definition rows :: "dataframe \<Rightarrow> (nat \<times> (string \<times> cell) list) list" where
  "rows df = map (row_at df) [0..<nrows df]"

subsection \<open>The operations of pandas and NumPy that the cells call\<close>

text \<open>
  \<open>df[label]\<close>: the column with that label, \<open>KeyError\<close> when there is none. The tables
  of the notebook have distinct labels (\<open>read_csv\<close> renames a repeated header), and the
  theorems below assume it; with a repeated label pandas would return a table.
\<close>

definition getitem :: "dataframe \<Rightarrow> string \<Rightarrow> error + column" where
  "getitem df label =
     (case map_of (columns df) label of
        None \<Rightarrow> Inl (KeyError label)
      | Some c \<Rightarrow> Inr c)"

text \<open>\<open>series == v\<close> for a number \<open>v\<close>: no string equals a number.\<close>

fun eq_scalar :: "column \<Rightarrow> rat \<Rightarrow> bool list" where
  "eq_scalar (NumCol xs) v = map (\<lambda>x. x = v) xs"
| "eq_scalar (StrCol xs) v = map (\<lambda>x. False) xs"

text \<open>\<open>np.in1d(series, values)\<close> for a list of strings: no number is one of them.\<close>

fun np_in1d :: "column \<Rightarrow> string list \<Rightarrow> bool list" where
  "np_in1d (StrCol xs) vs = map (\<lambda>x. x \<in> set vs) xs"
| "np_in1d (NumCol xs) vs = map (\<lambda>x. False) xs"

definition np_where :: "bool list \<Rightarrow> rat \<Rightarrow> rat \<Rightarrow> column" where
  "np_where cond x y = NumCol (map (\<lambda>b. if b then x else y) cond)"

text \<open>
  \<open>df[label] = values\<close>: an existing column is replaced where it stands, a new one is
  appended.
\<close>

definition setitem :: "dataframe \<Rightarrow> string \<Rightarrow> column \<Rightarrow> dataframe" where
  "setitem df label c =
     (if label \<in> set (col_names df)
      then df\<lparr>columns := map (\<lambda>(n, old). if n = label then (n, c) else (n, old)) (columns df)\<rparr>
      else df\<lparr>columns := columns df @ [(label, c)]\<rparr>)"

text \<open>
  \<open>pd.get_dummies(df)\<close>: the columns that are not of dtype \<open>object\<close> stay, in their
  order; after them each \<open>object\<close> column, in order, gives one 0/1 column per distinct
  value, the values sorted, labelled \<open>column_value\<close>.
\<close>

fun dummies_1d :: "string \<times> column \<Rightarrow> (string \<times> column) list" where
  "dummies_1d (name, StrCol xs) =
     map (\<lambda>level. (name @ ''_'' @ level, NumCol (map (\<lambda>x. if x = level then 1 else 0) xs)))
       (sort (remdups xs))"
| "dummies_1d (name, NumCol xs) = [(name, NumCol xs)]"

definition get_dummies :: "dataframe \<Rightarrow> dataframe" where
  "get_dummies df =
     df\<lparr>columns := filter (\<lambda>(n, c). \<not> is_object c) (columns df) @
                     concat (map dummies_1d (filter (\<lambda>(n, c). is_object c) (columns df)))\<rparr>"

text \<open>
  \<open>df.drop(labels, axis=1)\<close>: \<open>KeyError\<close> when a label is not a column (the model
  reports the first such label), else the table without the columns so labelled.
\<close>

definition drop_axis1 :: "dataframe \<Rightarrow> string list \<Rightarrow> error + dataframe" where
  "drop_axis1 df labels =
     (case filter (\<lambda>l. l \<notin> set (col_names df)) labels of
        [] \<Rightarrow> Inr (df\<lparr>columns := filter (\<lambda>(n, c). n \<notin> set labels) (columns df)\<rparr>)
      | l # ls \<Rightarrow> Inl (KeyError l))"

subsection \<open>The transformation cells\<close>

text \<open>The columns that the second transformation cell drops.\<close>

definition drop_labels :: "string list" where
  "drop_labels =
     [''duration'', ''emp.var.rate'', ''cons.price.idx'', ''cons.conf.idx'', ''euribor3m'',
      ''nr.employed'']"

text \<open>
  The two cells: the two indicator columns are assigned to \<open>data\<close>, \<open>get_dummies\<close>
  gives \<open>model_data\<close>, and the drop gives the final \<open>model_data\<close>.
\<close>

definition clean :: "dataframe \<Rightarrow> error + dataframe" where
  "clean data =
     (case getitem data ''pdays'' of
        Inl e \<Rightarrow> Inl e
      | Inr pdays \<Rightarrow>
          (let data1 = setitem data ''no_previous_contact'' (np_where (eq_scalar pdays 999) 1 0) in
           case getitem data1 ''job'' of
             Inl e \<Rightarrow> Inl e
           | Inr job \<Rightarrow>
               (let data2 = setitem data1 ''not_working''
                              (np_where (np_in1d job [''student'', ''retired'', ''unemployed'']) 1 0);
                    model_data = get_dummies data2
                in drop_axis1 model_data drop_labels)))"

subsection \<open>Shuffling and splitting\<close>

text \<open>
  NumPy's random generators, as far as \<open>sample\<close> uses them: \<open>RandomState seed\<close> is the
  state of a fresh generator made from a seed, and \<open>permutation g n\<close> draws an order of
  \<open>n\<close> row positions from a generator in state \<open>g\<close> and gives its next state. Which
  order comes out is NumPy's business; \<open>draws_permutations\<close> states what is known of it.
\<close>

record 'g numpy_random =
  RandomState :: "int \<Rightarrow> 'g"
  permutation :: "'g \<Rightarrow> nat \<Rightarrow> nat list \<times> 'g"

definition is_permutation :: "nat list \<Rightarrow> nat \<Rightarrow> bool" where
  "is_permutation ps n = (sort ps = [0..<n])"

definition draws_permutations :: "'g numpy_random \<Rightarrow> int \<Rightarrow> nat \<Rightarrow> bool" where
  "draws_permutations np seed n = is_permutation (fst (permutation np (RandomState np seed) n)) n"

text \<open>The rows at the given positions, in that order.\<close>

fun col_take :: "column \<Rightarrow> nat list \<Rightarrow> column" where
  "col_take (NumCol xs) ps = NumCol (map (\<lambda>i. xs ! i) ps)"
| "col_take (StrCol xs) ps = StrCol (map (\<lambda>i. xs ! i) ps)"

definition take_rows :: "dataframe \<Rightarrow> nat list \<Rightarrow> dataframe" where
  "take_rows df ps =
     \<lparr>index = map (\<lambda>i. index df ! i) ps,
      columns = map (\<lambda>(n, c). (n, col_take c ps)) (columns df)\<rparr>"

text \<open>
  \<open>df.sample(frac=1, random_state=r)\<close>: all rows, in an order drawn from a fresh
  generator seeded with \<open>r\<close> when a seed is given, and from the global generator (whose
  state \<open>g\<close> then advances) when it is not.
\<close>

definition sample :: "'g numpy_random \<Rightarrow> int option \<Rightarrow> 'g \<Rightarrow> dataframe \<Rightarrow> dataframe \<times> 'g" where
  "sample np random_state g df =
     (case random_state of
        Some seed \<Rightarrow> (take_rows df (fst (permutation np (RandomState np seed) (nrows df))), g)
      | None \<Rightarrow> (case permutation np g (nrows df) of (ps, g') \<Rightarrow> (take_rows df ps, g')))"

text \<open>A Python slice \<open>[st:end]\<close> with bounds that are not negative.\<close>

definition slice :: "'a list \<Rightarrow> nat \<Rightarrow> nat \<Rightarrow> 'a list" where
  "slice xs st en = drop st (take en xs)"

fun col_slice :: "column \<Rightarrow> nat \<Rightarrow> nat \<Rightarrow> column" where
  "col_slice (NumCol xs) st en = NumCol (slice xs st en)"
| "col_slice (StrCol xs) st en = StrCol (slice xs st en)"

definition iloc :: "dataframe \<Rightarrow> nat \<Rightarrow> nat \<Rightarrow> dataframe" where
  "iloc df st en =
     \<lparr>index = slice (index df) st en,
      columns = map (\<lambda>(n, c). (n, col_slice c st en)) (columns df)\<rparr>"

text \<open>
  \<open>np.split(ary, [i, j])\<close> cuts at the division points \<open>0, i, j, len(ary)\<close>: the three
  parts are \<open>ary[0:i]\<close>, \<open>ary[i:j]\<close> and \<open>ary[j:len(ary)]\<close>.
\<close>

definition np_split :: "dataframe \<Rightarrow> nat \<Rightarrow> nat \<Rightarrow> dataframe \<times> dataframe \<times> dataframe" where
  "np_split ary i j = (iloc ary 0 i, iloc ary i j, iloc ary j (nrows ary))"

text \<open>
  The split points \<open>int(0.7 * n)\<close> and \<open>int(0.9 * n)\<close> are computed in binary floating
  point. A double is \<open>m * 2^e\<close> with \<open>m < 2^53\<close>; \<open>round53\<close> rounds a natural number to
  53 significant bits, to nearest and ties to even, which is what the conversion of an
  \<open>int\<close> to \<open>float\<close> and the multiplication do. The literals \<open>0.7\<close> and \<open>0.9\<close> are the
  doubles \<open>6305039478318694 / 2^53\<close> and \<open>8106479329266893 / 2^53\<close>. \<open>len\<close> is below
  \<open>2^63\<close>, far from the largest double.
\<close>

fun bitlen :: "nat \<Rightarrow> nat" where
  "bitlen n = (if n = 0 then 0 else Suc (bitlen (n div 2)))"

declare bitlen.simps [simp del]

definition round53 :: "nat \<Rightarrow> nat" where
  "round53 P =
     (let L = bitlen P in
      if L \<le> 53 then P
      else (let s = L - 53; m = P div 2 ^ s; r = P mod 2 ^ s; h = 2 ^ (s - 1)
            in (if h < r \<or> (r = h \<and> odd m) then m + 1 else m) * 2 ^ s))"

definition float_0_7 :: nat where
  "float_0_7 = 6305039478318694"

definition float_0_9 :: nat where
  "float_0_9 = 8106479329266893"

text \<open>\<open>int(c * n)\<close> for the double \<open>c = mant / 2^53\<close> and the integer \<open>n\<close>.\<close>

definition int_float_times :: "nat \<Rightarrow> nat \<Rightarrow> nat" where
  "int_float_times mant n = round53 (mant * round53 n) div 2 ^ 53"

text \<open>The splitting cell; \<open>g\<close> is the state of NumPy's global generator.\<close>

definition split_cell ::
  "'g numpy_random \<Rightarrow> 'g \<Rightarrow> dataframe \<Rightarrow> (dataframe \<times> dataframe \<times> dataframe) \<times> 'g" where
  "split_cell np g model_data =
     (case sample np (Some 1729) g model_data of
        (shuffled, g') \<Rightarrow>
          (np_split shuffled
             (int_float_times float_0_7 (nrows model_data))
             (int_float_times float_0_9 (nrows model_data)), g'))"

subsection \<open>Writing the two files\<close>

text \<open>
  \<open>pd.concat([a, b], axis=1)\<close> for two tables cut from the same table, whose indexes are
  therefore equal: the columns of \<open>a\<close>, then those of \<open>b\<close>.
\<close>

definition concat_axis1 :: "dataframe \<Rightarrow> dataframe \<Rightarrow> dataframe" where
  "concat_axis1 a b = \<lparr>index = index a, columns = columns a @ columns b\<rparr>"

text \<open>
  A written file is the list of its records and a record the list of its fields.
  \<open>fmt\<close> is how pandas prints a number. With \<open>header\<close> the first record is the column
  labels, with \<open>index\<close> each data record starts with the row label.
\<close>

fun field :: "(rat \<Rightarrow> string) \<Rightarrow> column \<Rightarrow> nat \<Rightarrow> string" where
  "field fmt (NumCol xs) i = fmt (xs ! i)"
| "field fmt (StrCol xs) i = xs ! i"

definition to_csv :: "(rat \<Rightarrow> string) \<Rightarrow> dataframe \<Rightarrow> bool \<Rightarrow> bool \<Rightarrow> string list list" where
  "to_csv fmt df with_index header =
     (if header then [(if with_index then [''''] else []) @ col_names df] else []) @
     map (\<lambda>i. (if with_index then [fmt (of_nat (index df ! i))] else []) @
               map (\<lambda>(n, c). field fmt c i) (columns df))
       [0..<nrows df]"

text \<open>The table that is written for a part of the split: the label, then the features.\<close>

definition label_first :: "dataframe \<Rightarrow> error + dataframe" where
  "label_first part =
     (case getitem part ''y_yes'' of
        Inl e \<Rightarrow> Inl e
      | Inr y_yes \<Rightarrow>
          (case drop_axis1 part [''y_no'', ''y_yes''] of
             Inl e \<Rightarrow> Inl e
           | Inr features \<Rightarrow>
               Inr (concat_axis1 \<lparr>index = index part, columns = [(''y_yes'', y_yes)]\<rparr> features)))"

text \<open>
  The cell that writes \<open>train.csv\<close> and \<open>validation.csv\<close>; \<open>fs\<close> maps a file name to
  the content of the file. An exception in the second statement leaves the first file
  written.
\<close>

definition write_cell ::
  "(rat \<Rightarrow> string) \<Rightarrow> dataframe \<Rightarrow> dataframe \<Rightarrow> (string \<rightharpoonup> string list list) \<Rightarrow>
   (error + unit) \<times> (string \<rightharpoonup> string list list)" where
  "write_cell fmt train_data validation_data fs =
     (case label_first train_data of
        Inl e \<Rightarrow> (Inl e, fs)
      | Inr t \<Rightarrow>
          (let fs1 = fs(''train.csv'' \<mapsto> to_csv fmt t False False) in
           case label_first validation_data of
             Inl e \<Rightarrow> (Inl e, fs1)
           | Inr v \<Rightarrow> (Inr (), fs1(''validation.csv'' \<mapsto> to_csv fmt v False False))))"

subsection \<open>A small table and a toy generator to run the cells on\<close>

text \<open>Four contacts with the columns of the bank data set that the cells name.\<close>

definition example_data :: dataframe where
  "example_data =
     \<lparr>index = [0, 1, 2, 3],
      columns =
        [(''age'', NumCol [56, 57, 37, 40]),
         (''job'', StrCol [''housemaid'', ''retired'', ''student'', ''admin.'']),
         (''duration'', NumCol [261, 149, 226, 151]),
         (''pdays'', NumCol [999, 999, 6, 999]),
         (''emp.var.rate'', NumCol [11 / 10, 11 / 10, - 1 / 10, 11 / 10]),
         (''cons.price.idx'', NumCol [93994 / 1000, 93994 / 1000, 932 / 10, 93994 / 1000]),
         (''cons.conf.idx'', NumCol [- 364 / 10, - 364 / 10, - 42, - 364 / 10]),
         (''euribor3m'', NumCol [4857 / 1000, 4857 / 1000, 4021 / 1000, 4857 / 1000]),
         (''nr.employed'', NumCol [5191, 5191, 51958 / 10, 5191]),
         (''y'', StrCol [''no'', ''no'', ''yes'', ''no''])]\<rparr>"

text \<open>What the transformation cells make of it.\<close>

definition example_model_data :: dataframe where
  "example_model_data =
     \<lparr>index = [0, 1, 2, 3],
      columns =
        [(''age'', NumCol [56, 57, 37, 40]),
         (''pdays'', NumCol [999, 999, 6, 999]),
         (''no_previous_contact'', NumCol [1, 1, 0, 1]),
         (''not_working'', NumCol [0, 1, 1, 0]),
         (''job_admin.'', NumCol [0, 0, 0, 1]),
         (''job_housemaid'', NumCol [1, 0, 0, 0]),
         (''job_retired'', NumCol [0, 1, 0, 0]),
         (''job_student'', NumCol [0, 0, 1, 0]),
         (''y_no'', NumCol [1, 1, 0, 1]),
         (''y_yes'', NumCol [0, 0, 1, 0])]\<rparr>"

text \<open>
  The parts of its split under the toy generator below, which puts the rows in the order
  3, 2, 1, 0: two rows to train on, one to validate on, one to test on.
\<close>

definition example_train :: dataframe where
  "example_train =
     \<lparr>index = [3, 2],
      columns =
        [(''age'', NumCol [40, 37]),
         (''pdays'', NumCol [999, 6]),
         (''no_previous_contact'', NumCol [1, 0]),
         (''not_working'', NumCol [0, 1]),
         (''job_admin.'', NumCol [1, 0]),
         (''job_housemaid'', NumCol [0, 0]),
         (''job_retired'', NumCol [0, 0]),
         (''job_student'', NumCol [0, 1]),
         (''y_no'', NumCol [1, 0]),
         (''y_yes'', NumCol [0, 1])]\<rparr>"

definition example_validation :: dataframe where
  "example_validation =
     \<lparr>index = [1],
      columns =
        [(''age'', NumCol [57]),
         (''pdays'', NumCol [999]),
         (''no_previous_contact'', NumCol [1]),
         (''not_working'', NumCol [1]),
         (''job_admin.'', NumCol [0]),
         (''job_housemaid'', NumCol [0]),
         (''job_retired'', NumCol [1]),
         (''job_student'', NumCol [0]),
         (''y_no'', NumCol [1]),
         (''y_yes'', NumCol [0])]\<rparr>"

definition example_test :: dataframe where
  "example_test =
     \<lparr>index = [0],
      columns =
        [(''age'', NumCol [56]),
         (''pdays'', NumCol [999]),
         (''no_previous_contact'', NumCol [1]),
         (''not_working'', NumCol [0]),
         (''job_admin.'', NumCol [0]),
         (''job_housemaid'', NumCol [1]),
         (''job_retired'', NumCol [0]),
         (''job_student'', NumCol [0]),
         (''y_no'', NumCol [1]),
         (''y_yes'', NumCol [0])]\<rparr>"

text \<open>
  A generator whose state is a counter and which draws the reversed order in an odd state
  and the given order in an even one.
\<close>

definition example_numpy :: "nat numpy_random" where
  "example_numpy =
     \<lparr>RandomState = (\<lambda>seed. nat \<bar>seed\<bar>),
      permutation = (\<lambda>g n. (if odd g then rev [0..<n] else [0..<n], g + 1))\<rparr>"

text \<open>Printing the numbers of the small table, which are natural numbers, in decimal.\<close>

fun show_nat :: "nat \<Rightarrow> string" where
  "show_nat n =
     (if n < 10 then [char_of (48 + n)] else show_nat (n div 10) @ [char_of (48 + n mod 10)])"

declare show_nat.simps [simp del]

definition example_fmt :: "rat \<Rightarrow> string" where
  "example_fmt x = show_nat (nat \<lfloor>x\<rfloor>)"

section \<open>Properties of the analysis functions\<close>

lemma values_at_Inr:
  "values_at t ss = Inr vs \<Longrightarrow> length vs = length ss \<and> (\<forall>i<length ss. val t (ss ! i) = Some (vs ! i))"
proof (induction ss arbitrary: vs)
  case Nil
  then show ?case by simp
next
  case (Cons s ss)
  then show ?case
    by (auto split: option.splits sum.splits simp: nth_Cons split: nat.splits)
qed

lemma values_at_total:
  "set ss \<subseteq> dom (val t) \<Longrightarrow> \<exists>vs. values_at t ss = Inr vs"
  by (induction ss) (auto split: option.splits sum.splits)

lemma re_compile_lit:
  "set lit \<inter> set special_chars = {} \<Longrightarrow>
   re_compile (lit @ ''.*'') = Some (map (\<lambda>c. One (Lit c)) lit @ [Star AnyChar])"
proof (induction lit)
  case Nil
  then show ?case by (simp add: atom_of_def)
next
  case (Cons c cs)
  then have c: "atom_of c = Some (Lit c)" by (auto simp: atom_of_def special_chars_def)
  show ?case
  proof (cases cs)
    case Nil
    then show ?thesis using c by (simp add: atom_of_def)
  next
    case (Cons d ds)
    with Cons.prems have "d \<noteq> CHR ''*''" by (auto simp: special_chars_def)
    with Cons.IH Cons.prems c Cons show ?thesis by simp
  qed
qed

lemma match_here_lit:
  "match_here (map (\<lambda>c. One (Lit c)) lit @ [Star AnyChar]) s = prefix lit s"
  by (induction lit arbitrary: s) (auto split: list.splits)

lemma plot_labels_append [simp]: "plot_labels (xs @ ys) = plot_labels xs @ plot_labels ys"
  by (simp add: plot_labels_def)

lemma get_data_readable:
  assumes "readable (store S) n"
  shows "\<exists>sts data. get_data S n = (Inr (sts, data), S)"
proof -
  from assms obtain t where t: "tensor (store S) n = Some t" "set (steps t) \<subseteq> dom (val t)"
    by (auto simp: readable_def list_all_iff split: option.splits)
  from values_at_total [OF t(2)] obtain vs where "values_at t (steps t) = Inr vs" ..
  with t(1) show ?thesis by (simp add: get_data_def)
qed

lemma plot_loop_ok:
  assumes "re_compile regex = Some p"
  shows "\<forall>n\<in>set ns. match_here p n \<longrightarrow> readable (store S) n \<Longrightarrow>
    fst (plot_loop S regex ns) = Inr () \<and>
    store (snd (plot_loop S regex ns)) = store S \<and>
    plot_labels (canvas (snd (plot_loop S regex ns))) =
      plot_labels (canvas S) @ filter (match_here p) ns"
proof (induction ns arbitrary: S)
  case Nil
  then show ?case by simp
next
  case (Cons n ns)
  show ?case
  proof (cases "match_here p n")
    case False
    with Cons assms show ?thesis by (simp add: re_match_def)
  next
    case True
    with Cons.prems have "readable (store S) n" by simp
    from get_data_readable [OF this] obtain sts data
      where g: "get_data S n = (Inr (sts, data), S)" by blast
    let ?S = "S\<lparr>canvas := canvas S @ [Plot n sts data]\<rparr>"
    have "\<forall>m\<in>set ns. match_here p m \<longrightarrow> readable (store ?S) m"
      using Cons.prems by simp
    from Cons.IH [OF this] True g assms show ?thesis
      by (simp add: re_match_def plot_labels_def)
  qed
qed

lemma plot_collection_ok:
  assumes "collection (store S) cname = Some tensors"
      and "re_compile regex = Some p"
      and "\<forall>n\<in>set tensors. match_here p n \<longrightarrow> readable (store S) n"
  shows "fst (plot_collection S cname regex figsize) = Inr () \<and>
         store (snd (plot_collection S cname regex figsize)) = store S \<and>
         plot_labels (canvas (snd (plot_collection S cname regex figsize))) =
           plot_labels (canvas S) @ filter (match_here p) (sort (remdups tensors))"
proof -
  let ?S1 = "S\<lparr>canvas := canvas S @ [Subplots figsize, Despine]\<rparr>"
  have tn: "tensor_names (store S) cname = tensors"
    using assms(1) by (simp add: tensor_names_def)
  have "\<forall>n\<in>set (sort (remdups tensors)). match_here p n \<longrightarrow> readable (store ?S1) n"
    using assms(3) by simp
  from plot_loop_ok [OF assms(2) this] show ?thesis
    by (cases "plot_loop ?S1 regex (sort (remdups tensors))")
       (simp add: plot_collection_def Let_def tn plot_labels_def)
qed

lemma supported_no_special:
  "t \<in> set SUPPORTED_IMPORTANCE_TYPES \<Longrightarrow>
   set (''feature_importance/'' @ t @ ''/'') \<inter> set special_chars = {}"
  by (auto simp: SUPPORTED_IMPORTANCE_TYPES_def special_chars_def)

lemma get_data_state: "snd (get_data S tname) = S"
  by (simp add: get_data_def Let_def split: option.splits sum.splits)

lemma get_data_not_ValueError: "fst (get_data S tname) \<noteq> Inl (ValueError m)"
proof -
  have "values_at t ss \<noteq> Inl (ValueError m)" for t :: "'a tensor" and ss
    by (induction ss) (auto split: option.splits sum.splits)
  then show ?thesis
    by (auto simp: get_data_def Let_def split: option.splits sum.splits)
qed

lemma plot_loop_not_ValueError: "fst (plot_loop S regex ns) \<noteq> Inl (ValueError m)"
proof (induction ns arbitrary: S)
  case Nil
  then show ?case by simp
next
  case (Cons n ns)
  show ?case
  proof (cases "get_data S n")
    case (Pair r S')
    with get_data_not_ValueError [of S n m] Cons show ?thesis
      by (auto simp: re_match_def split: option.splits sum.splits bool.splits prod.splits)
  qed
qed

lemma plot_loop_canvas: "prefix (canvas S) (canvas (snd (plot_loop S regex ns)))"
proof (induction ns arbitrary: S)
  case Nil
  then show ?case by simp
next
  case (Cons n ns)
  have "prefix (canvas S) (canvas (snd (plot_loop (S\<lparr>canvas := canvas S @ [d]\<rparr>) regex ns)))" for d
    using Cons [of "S\<lparr>canvas := canvas S @ [d]\<rparr>"] by (auto dest: append_prefixD)
  with Cons get_data_state [of S n] show ?case
    by (auto split: sum.splits bool.splits prod.splits)
qed

lemma plot_collection_not_ValueError:
  "fst (plot_collection S cname regex figsize) \<noteq> Inl (ValueError m)"
proof -
  let ?S1 = "S\<lparr>canvas := canvas S @ [Subplots figsize, Despine]\<rparr>"
  let ?ns = "sort (remdups (tensor_names (store ?S1) cname))"
  from plot_loop_not_ValueError [of ?S1 regex ?ns m] show ?thesis
    by (cases "plot_loop ?S1 regex ?ns")
       (auto simp: plot_collection_def Let_def split: sum.splits)
qed

lemma plot_collection_canvas:
  "prefix (canvas S @ [Subplots figsize, Despine]) (canvas (snd (plot_collection S cname regex figsize)))"
proof -
  let ?S1 = "S\<lparr>canvas := canvas S @ [Subplots figsize, Despine]\<rparr>"
  let ?ns = "sort (remdups (tensor_names (store ?S1) cname))"
  from plot_loop_canvas [of ?S1 regex ?ns] show ?thesis
    by (cases "plot_loop ?S1 regex ?ns")
       (auto simp: plot_collection_def Let_def split: sum.splits intro: prefix_order.trans)
qed

text \<open>
  For a collection name that the trial does not know, nothing is plotted and the call
  returns with the empty chart finished.
\<close>

lemma plot_collection_unknown_collection:
  assumes "collection (store S) cname = None"
  shows "plot_collection S cname regex figsize =
    (Inr (), S\<lparr>canvas := canvas S @ [Subplots figsize, Despine, Legend, SetXLabel ''Iteration'']\<rparr>)"
  using assms by (simp add: plot_collection_def tensor_names_def)

text \<open>
  Claim C1. For every importance type outside the supported list,
  \<open>plot_feature_importance\<close> raises the \<open>ValueError\<close> of its check and leaves the
  state as it was: no figure is created and nothing is drawn, since \<open>plot_collection\<close>
  is not reached. For every importance type in the list the call is the call of
  \<open>plot_collection\<close> on the collection \<open>feature_importance\<close>, which raises no
  \<open>ValueError\<close> and starts by creating the figure.
\<close>

theorem plot_feature_importance_validation:
  "(importance_type \<notin> set SUPPORTED_IMPORTANCE_TYPES \<longrightarrow>
      plot_feature_importance S importance_type =
        (Inl (ValueError (importance_type @ '' is not one of the supported importance types.'')), S)) \<and>
   (importance_type \<in> set SUPPORTED_IMPORTANCE_TYPES \<longrightarrow>
      plot_feature_importance S importance_type =
        plot_collection S ''feature_importance''
          (''feature_importance/'' @ importance_type @ ''/.*'') (8, 6) \<and>
      (\<forall>m. fst (plot_feature_importance S importance_type) \<noteq> Inl (ValueError m)) \<and>
      prefix (canvas S @ [Subplots (8, 6), Despine])
        (canvas (snd (plot_feature_importance S importance_type))))"
proof (cases "importance_type \<in> set SUPPORTED_IMPORTANCE_TYPES")
  case False
  then show ?thesis by (simp add: plot_feature_importance_def)
next
  case True
  let ?regex = "''feature_importance/'' @ importance_type @ ''/.*''"
  from True have eq: "plot_feature_importance S importance_type =
      plot_collection S ''feature_importance'' ?regex (8, 6)"
    by (simp add: plot_feature_importance_def)
  have "\<forall>m. fst (plot_collection S ''feature_importance'' ?regex (8, 6)) \<noteq> Inl (ValueError m)"
    using plot_collection_not_ValueError by blast
  moreover have "prefix (canvas S @ [Subplots (8, 6), Despine])
      (canvas (snd (plot_collection S ''feature_importance'' ?regex (8, 6))))"
    by (rule plot_collection_canvas)
  ultimately show ?thesis using True unfolding eq by blast
qed

theorem plot_feature_importance_validation_witness:
  "''shap'' \<notin> set SUPPORTED_IMPORTANCE_TYPES \<and>
   plot_feature_importance example_session ''shap'' =
     (Inl (ValueError ''shap is not one of the supported importance types.''), example_session) \<and>
   ''gain'' \<in> set SUPPORTED_IMPORTANCE_TYPES \<and>
   prefix [Subplots (8, 6), Despine] (canvas (snd (plot_feature_importance example_session ''gain'')))"
proof -
  have no: "''shap'' \<notin> set SUPPORTED_IMPORTANCE_TYPES"
    by (simp add: SUPPORTED_IMPORTANCE_TYPES_def)
  have yes: "''gain'' \<in> set SUPPORTED_IMPORTANCE_TYPES"
    by (simp add: SUPPORTED_IMPORTANCE_TYPES_def)
  have e: "canvas example_session = []" by (simp add: example_session_def)
  from plot_feature_importance_validation [of "''shap''" example_session] no
  have "plot_feature_importance example_session ''shap'' =
     (Inl (ValueError ''shap is not one of the supported importance types.''), example_session)"
    by simp
  moreover from plot_feature_importance_validation [of "''gain''" example_session] yes
  have "prefix (canvas example_session @ [Subplots (8, 6), Despine])
      (canvas (snd (plot_feature_importance example_session ''gain'')))"
    by blast
  then have "prefix [Subplots (8, 6), Despine] (canvas (snd (plot_feature_importance example_session ''gain'')))"
    by (simp only: e append_Nil)
  ultimately show ?thesis using no yes by blast
qed

lemma plot_loop_store: "store (snd (plot_loop S regex ns)) = store S"
proof (induction ns arbitrary: S)
  case Nil
  then show ?case by simp
next
  case (Cons n ns)
  have "store (snd (plot_loop (S\<lparr>canvas := canvas S @ [d]\<rparr>) regex ns)) = store S" for d
    using Cons [of "S\<lparr>canvas := canvas S @ [d]\<rparr>"] by simp
  with Cons get_data_state [of S n] show ?case
    by (auto split: sum.splits bool.splits prod.splits)
qed

lemma plot_collection_store: "store (snd (plot_collection S cname regex figsize)) = store S"
proof -
  let ?S1 = "S\<lparr>canvas := canvas S @ [Subplots figsize, Despine]\<rparr>"
  let ?ns = "sort (remdups (tensor_names (store ?S1) cname))"
  from plot_loop_store [of ?S1 regex ?ns] show ?thesis
    by (cases "plot_loop ?S1 regex ?ns")
       (auto simp: plot_collection_def Let_def split: sum.splits)
qed

lemma plot_feature_importance_store: "store (snd (plot_feature_importance S t)) = store S"
  by (simp add: plot_feature_importance_def plot_collection_store)

text \<open>
  Claim C7. \<open>get_data\<close> passes the stored series through: the state, and with it the
  store behind the trial, is returned as it was; when a pair is returned, its first part
  is the step list of the tensor, the second has the same length, and its \<open>i\<close>-th entry
  is the value stored at the \<open>i\<close>-th step. A pair is returned exactly when the tensor
  can be read. The two plotting functions, which draw on the canvas, leave the store as
  it was too.
\<close>

theorem get_data_pass_through:
  "snd (get_data S tname) = S \<and>
   (\<forall>sts vals. fst (get_data S tname) = Inr (sts, vals) \<longrightarrow>
      (\<exists>t. tensor (store S) tname = Some t \<and> sts = steps t \<and> length vals = length sts \<and>
           (\<forall>i<length sts. val t (sts ! i) = Some (vals ! i)))) \<and>
   ((\<exists>r. fst (get_data S tname) = Inr r) = readable (store S) tname) \<and>
   store (snd (plot_collection S cname regex figsize)) = store S \<and>
   store (snd (plot_feature_importance S importance_type)) = store S"
proof (intro conjI allI impI)
  show "snd (get_data S tname) = S" by (rule get_data_state)
next
  show "store (snd (plot_collection S cname regex figsize)) = store S"
    by (rule plot_collection_store)
next
  show "store (snd (plot_feature_importance S importance_type)) = store S"
    by (rule plot_feature_importance_store)
next
  fix sts vals
  assume "fst (get_data S tname) = Inr (sts, vals)"
  then obtain t where t: "tensor (store S) tname = Some t" "sts = steps t"
      "values_at t (steps t) = Inr vals"
    by (auto simp: get_data_def Let_def split: option.splits sum.splits)
  from values_at_Inr [OF t(3)] t(1,2)
  show "\<exists>t. tensor (store S) tname = Some t \<and> sts = steps t \<and> length vals = length sts \<and>
           (\<forall>i<length sts. val t (sts ! i) = Some (vals ! i))" by simp
next
  show "(\<exists>r. fst (get_data S tname) = Inr r) = readable (store S) tname"
  proof
    assume "readable (store S) tname"
    from get_data_readable [OF this] show "\<exists>r. fst (get_data S tname) = Inr r" by auto
  next
    assume "\<exists>r. fst (get_data S tname) = Inr r"
    then obtain t vals where t: "tensor (store S) tname = Some t" "values_at t (steps t) = Inr vals"
      by (auto simp: get_data_def Let_def split: option.splits sum.splits)
    from values_at_Inr [OF t(2)] have "\<forall>s\<in>set (steps t). val t s \<noteq> None"
      by (auto simp: in_set_conv_nth)
    with t(1) show "readable (store S) tname" by (simp add: readable_def list_all_iff)
  qed
qed

theorem get_data_pass_through_witness:
  "fst (get_data example_session ''feature_importance/gain/f1'') = Inr ([0, 2], [5, 7]) \<and>
   snd (get_data example_session ''feature_importance/gain/f1'') = example_session \<and>
   readable (store example_session) ''feature_importance/gain/f1'' \<and>
   (\<exists>t. tensor (store example_session) ''feature_importance/gain/f1'' = Some t \<and>
        [0, 2] = steps t \<and> length [5, 7 :: int] = length [0, 2 :: nat] \<and>
        (\<forall>i<length [0, 2 :: nat]. val t ([0, 2] ! i) = Some ([5, 7] ! i)))"
proof -
  have g: "fst (get_data example_session ''feature_importance/gain/f1'') = Inr ([0, 2], [5, 7])"
    by (simp add: get_data_def Let_def example_session_def example_trial_def)
  from get_data_pass_through [of example_session "''feature_importance/gain/f1''"] g
  show ?thesis by blast
qed

lemma plotted_eq: "plot_labels (canvas S') = plot_labels (canvas S) @ L \<Longrightarrow> plotted S S' = L"
  by (simp add: plotted_def)

lemma total_not_plain:
  "t = ''gain'' \<or> t = ''cover'' \<Longrightarrow>
   prefix (''feature_importance/total_'' @ t @ ''/'') n \<Longrightarrow>
   \<not> prefix (''feature_importance/'' @ t @ ''/'') n"
  by (auto simp: prefix_def)

text \<open>
  Claim C9. When the tensors that match can be read, \<open>plot_collection\<close> returns and
  has plotted the names of the collection that the pattern matches at their start, each
  once, in sorted order. For a supported importance type \<open>t\<close>,
  \<open>plot_feature_importance\<close> plots the names that start with
  \<open>feature_importance/t/\<close>; for \<open>gain\<close> and \<open>cover\<close> no plotted name starts with
  \<open>feature_importance/total_gain/\<close> or \<open>feature_importance/total_cover/\<close>.
\<close>

theorem plot_collection_selects_matching:
  "(collection (store S) cname = Some tensors \<and> re_compile regex = Some p \<and>
    (\<forall>n\<in>set tensors. match_here p n \<longrightarrow> readable (store S) n) \<longrightarrow>
      fst (plot_collection S cname regex figsize) = Inr () \<and>
      plotted S (snd (plot_collection S cname regex figsize)) =
        filter (match_here p) (sort (remdups tensors))) \<and>
   (t \<in> set SUPPORTED_IMPORTANCE_TYPES \<and>
    collection (store S) ''feature_importance'' = Some names \<and>
    (\<forall>n\<in>set names. prefix (''feature_importance/'' @ t @ ''/'') n \<longrightarrow> readable (store S) n) \<longrightarrow>
      fst (plot_feature_importance S t) = Inr () \<and>
      plotted S (snd (plot_feature_importance S t)) =
        filter (prefix (''feature_importance/'' @ t @ ''/'')) (sort (remdups names)) \<and>
      (t = ''gain'' \<or> t = ''cover'' \<longrightarrow>
        (\<forall>n\<in>set (plotted S (snd (plot_feature_importance S t))).
           \<not> prefix (''feature_importance/total_'' @ t @ ''/'') n)))"
proof (intro conjI impI; (elim conjE)?)
  assume a: "collection (store S) cname = Some tensors" "re_compile regex = Some p"
    "\<forall>n\<in>set tensors. match_here p n \<longrightarrow> readable (store S) n"
  from plot_collection_ok [OF a, of figsize]
  show "fst (plot_collection S cname regex figsize) = Inr ()"
    and "plotted S (snd (plot_collection S cname regex figsize)) =
        filter (match_here p) (sort (remdups tensors))"
    by (simp_all add: plotted_eq)
next
  let ?lit = "''feature_importance/'' @ t @ ''/''"
  let ?p = "map (\<lambda>c. One (Lit c)) ?lit @ [Star AnyChar]"
  assume a: "t \<in> set SUPPORTED_IMPORTANCE_TYPES"
    "collection (store S) ''feature_importance'' = Some names"
    "\<forall>n\<in>set names. prefix ?lit n \<longrightarrow> readable (store S) n"
  have c: "re_compile (?lit @ ''.*'') = Some ?p"
    by (rule re_compile_lit) (rule supported_no_special [OF a(1)])
  have m: "match_here ?p = prefix ?lit"
    by (rule ext) (rule match_here_lit)
  have r: "\<forall>n\<in>set names. match_here ?p n \<longrightarrow> readable (store S) n"
    using a(3) unfolding m .
  have eq: "plot_feature_importance S t =
      plot_collection S ''feature_importance'' (?lit @ ''.*'') (8, 6)"
    using a(1) by (simp add: plot_feature_importance_def)
  from plot_collection_ok [OF a(2) c r, of "(8, 6)"]
  have ok: "fst (plot_feature_importance S t) = Inr ()"
    and pl: "plotted S (snd (plot_feature_importance S t)) = filter (prefix ?lit) (sort (remdups names))"
    unfolding eq m by (simp_all add: plotted_eq)
  show "fst (plot_feature_importance S t) = Inr ()" by (rule ok)
  show "plotted S (snd (plot_feature_importance S t)) = filter (prefix ?lit) (sort (remdups names))"
    by (rule pl)
  show "\<forall>n\<in>set (plotted S (snd (plot_feature_importance S t))).
           \<not> prefix (''feature_importance/total_'' @ t @ ''/'') n"
    if "t = ''gain'' \<or> t = ''cover''"
    unfolding pl using total_not_plain [OF that] by auto
qed

theorem plot_collection_selects_matching_witness:
  "''gain'' \<in> set SUPPORTED_IMPORTANCE_TYPES \<and>
   collection (store example_session) ''feature_importance'' =
     Some [''feature_importance/gain/f1'', ''feature_importance/total_gain/f0'',
           ''feature_importance/gain/f0''] \<and>
   re_compile ''.*'' = Some [Star AnyChar] \<and>
   fst (plot_collection example_session ''feature_importance'' ''.*'' (8, 6)) = Inr () \<and>
   plotted example_session (snd (plot_collection example_session ''feature_importance'' ''.*'' (8, 6))) =
     [''feature_importance/gain/f0'', ''feature_importance/gain/f1'',
      ''feature_importance/total_gain/f0''] \<and>
   fst (plot_feature_importance example_session ''gain'') = Inr () \<and>
   plotted example_session (snd (plot_feature_importance example_session ''gain'')) =
     [''feature_importance/gain/f0'', ''feature_importance/gain/f1'']"
proof -
  let ?names = "[''feature_importance/gain/f1'', ''feature_importance/total_gain/f0'',
           ''feature_importance/gain/f0'']"
  have s: "''gain'' \<in> set SUPPORTED_IMPORTANCE_TYPES"
    by (simp add: SUPPORTED_IMPORTANCE_TYPES_def)
  have c: "collection (store example_session) ''feature_importance'' = Some ?names"
    by (simp add: example_session_def example_trial_def)
  have p: "re_compile ''.*'' = Some [Star AnyChar]"
    by (simp add: atom_of_def)
  have r: "\<forall>n\<in>set ?names. readable (store example_session) n"
    by (simp add: readable_def example_session_def example_trial_def)
  have srt: "sort (remdups ?names) =
     [''feature_importance/gain/f0'', ''feature_importance/gain/f1'',
      ''feature_importance/total_gain/f0'']"
    by code_simp
  note inst = plot_collection_selects_matching [where S = example_session and t = "''gain''"
      and names = ?names and cname = "''feature_importance''" and tensors = ?names
      and regex = "''.*''" and p = "[Star AnyChar]" and figsize = "(8, 6)"]
  from inst s c p r
  have "fst (plot_collection example_session ''feature_importance'' ''.*'' (8, 6)) = Inr ()"
    and "plotted example_session (snd (plot_collection example_session ''feature_importance'' ''.*'' (8, 6))) =
          filter (match_here [Star AnyChar]) (sort (remdups ?names))"
    and "fst (plot_feature_importance example_session ''gain'') = Inr ()"
    and "plotted example_session (snd (plot_feature_importance example_session ''gain'')) =
          filter (prefix (''feature_importance/'' @ ''gain'' @ ''/'')) (sort (remdups ?names))"
    by blast+
  then show ?thesis using s c p unfolding srt by simp
qed

section \<open>Properties of the status cell\<close>

lemma poll_loop_exit_status:
  assumes "poll_loop w d = Some r"
  shows "SecondaryStatus (fst r) \<in> set [''Training'', ''Completed'']"
  by (rule poll_loop.raw_induct [OF _ assms]) (auto split: if_splits prod.splits)

lemma poll_loop_run:
  "SecondaryStatus (responses w (calls w + k)) \<in> set [''Training'', ''Completed''] \<Longrightarrow>
   \<forall>j<k. SecondaryStatus (responses w (calls w + j)) \<notin> set [''Training'', ''Completed''] \<Longrightarrow>
   SecondaryStatus d \<notin> set [''Training'', ''Completed''] \<Longrightarrow>
   poll_loop w d =
     Some (responses w (calls w + k), w\<lparr>calls := calls w + k + 1, slept := slept w + 15 * (k + 1)\<rparr>)"
proof (induction k arbitrary: w d)
  case 0
  let ?w = "sleep 15 (w\<lparr>calls := calls w + 1\<rparr>)"
  let ?d = "responses w (calls w)"
  have "poll_loop w d = poll_loop ?w ?d"
    using 0(3) by (subst poll_loop.simps) (simp add: describe_training_job_def)
  also have "\<dots> = Some (?d, ?w)"
    using 0(1) by (subst poll_loop.simps) simp
  finally show ?case by (simp add: sleep_def)
next
  case (Suc k)
  let ?w = "sleep 15 (w\<lparr>calls := calls w + 1\<rparr>)"
  let ?d = "responses w (calls w)"
  have r: "responses ?w = responses w" "calls ?w = calls w + 1" "slept ?w = slept w + 15"
    by (simp_all add: sleep_def)
  have 1: "SecondaryStatus (responses ?w (calls ?w + k)) \<in> set [''Training'', ''Completed'']"
    using Suc.prems(1) unfolding r by (simp add: add.assoc)
  have 2: "\<forall>j<k. SecondaryStatus (responses ?w (calls ?w + j)) \<notin> set [''Training'', ''Completed'']"
    using Suc.prems(2) unfolding r by (auto simp: add.assoc)
  have 3: "SecondaryStatus ?d \<notin> set [''Training'', ''Completed'']"
    using Suc.prems(2) by auto
  have "poll_loop w d = poll_loop ?w ?d"
    using Suc.prems(3) by (subst poll_loop.simps) (simp add: describe_training_job_def)
  also have "\<dots> = Some (responses ?w (calls ?w + k),
      ?w\<lparr>calls := calls ?w + k + 1, slept := slept ?w + 15 * (k + 1)\<rparr>)"
    by (rule Suc.IH [OF 1 2 3])
  finally show ?case unfolding r by (simp add: sleep_def)
qed

lemma poll_loop_needs_exit_status:
  assumes "poll_loop w d = Some r"
  shows "SecondaryStatus d \<in> set [''Training'', ''Completed''] \<or>
         (\<exists>j. SecondaryStatus (responses w (calls w + j)) \<in> set [''Training'', ''Completed''])"
proof (rule poll_loop.raw_induct [OF _ assms])
  fix f w d r
  assume IH: "\<And>w d r. f w d = Some r \<Longrightarrow>
      SecondaryStatus d \<in> set [''Training'', ''Completed''] \<or>
      (\<exists>j. SecondaryStatus (responses w (calls w + j)) \<in> set [''Training'', ''Completed''])"
    and body: "(if SecondaryStatus d \<notin> set [''Training'', ''Completed'']
      then case describe_training_job w of (description', w') \<Rightarrow> f (sleep 15 w') description'
      else Some (d, w)) = Some r"
  let ?X = "set [''Training'', ''Completed'']"
  show "SecondaryStatus d \<in> ?X \<or> (\<exists>j. SecondaryStatus (responses w (calls w + j)) \<in> ?X)"
  proof (cases "SecondaryStatus d \<in> ?X")
    case True
    then show ?thesis by blast
  next
    case False
    let ?w = "sleep 15 (w\<lparr>calls := calls w + 1\<rparr>)"
    from False body have "f ?w (responses w (calls w)) = Some r"
      by (simp add: describe_training_job_def)
    from IH [OF this] consider "SecondaryStatus (responses w (calls w)) \<in> ?X"
      | j where "SecondaryStatus (responses ?w (calls ?w + j)) \<in> ?X" by blast
    then show ?thesis
    proof cases
      case 1
      then have "SecondaryStatus (responses w (calls w + 0)) \<in> ?X" by simp
      then show ?thesis by blast
    next
      case 2
      then have "SecondaryStatus (responses w (calls w + (j + 1))) \<in> ?X"
        by (simp add: sleep_def)
      then show ?thesis by blast
    qed
  qed
qed

text \<open>
  What the cell does. It describes the job once; unless that first description has
  \<open>TrainingJobStatus = Completed\<close>, it loops, and each turn of the loop describes the job
  again and sleeps 15 seconds. The cell returns only with a description whose
  \<open>SecondaryStatus\<close> is \<open>Training\<close> or \<open>Completed\<close> (or with that first \<open>Completed\<close>
  description); it returns at the first such description, after one call and one sleep
  for each earlier one; and when the service never reports such a status, the loop never
  exits.
\<close>

lemma status_cell_behaviour:
  "(status_cell w = Some (d, w') \<longrightarrow>
      SecondaryStatus d \<in> set [''Training'', ''Completed''] \<or> TrainingJobStatus d = ''Completed'') \<and>
   (TrainingJobStatus (responses w (calls w)) \<noteq> ''Completed'' \<and>
    (\<forall>j<k. SecondaryStatus (responses w (calls w + j)) \<notin> set [''Training'', ''Completed'']) \<and>
    SecondaryStatus (responses w (calls w + k)) \<in> set [''Training'', ''Completed''] \<longrightarrow>
      status_cell w =
        Some (responses w (calls w + k), w\<lparr>calls := calls w + k + 1, slept := slept w + 15 * k\<rparr>)) \<and>
   (TrainingJobStatus (responses w (calls w)) \<noteq> ''Completed'' \<and>
    (\<forall>j. SecondaryStatus (responses w (calls w + j)) \<notin> set [''Training'', ''Completed'']) \<longrightarrow>
      status_cell w = None)"
proof (intro conjI impI; (elim conjE)?)
  assume a: "TrainingJobStatus (responses w (calls w)) \<noteq> ''Completed''"
    "\<forall>j. SecondaryStatus (responses w (calls w + j)) \<notin> set [''Training'', ''Completed'']"
  let ?w = "w\<lparr>calls := calls w + 1\<rparr>"
  let ?d = "responses w (calls w)"
  have s: "status_cell w = poll_loop ?w ?d"
    using a(1) by (simp add: status_cell_def describe_training_job_def)
  show "status_cell w = None"
  proof (cases "poll_loop ?w ?d")
    case None
    with s show ?thesis by simp
  next
    case (Some r)
    from poll_loop_needs_exit_status [OF this]
    consider "SecondaryStatus ?d \<in> set [''Training'', ''Completed'']"
      | j where "SecondaryStatus (responses w (calls w + (j + 1))) \<in> set [''Training'', ''Completed'']"
      by (auto simp: add.assoc)
    then show ?thesis
    proof cases
      case 1
      with a(2) [rule_format, of 0] show ?thesis by simp
    next
      case 2
      with a(2) [rule_format, of "j + 1"] show ?thesis by blast
    qed
  qed
next
  assume "status_cell w = Some (d, w')"
  then show "SecondaryStatus d \<in> set [''Training'', ''Completed''] \<or> TrainingJobStatus d = ''Completed''"
    by (auto simp: status_cell_def describe_training_job_def split: if_splits
             dest: poll_loop_exit_status)
next
  assume a: "TrainingJobStatus (responses w (calls w)) \<noteq> ''Completed''"
    "\<forall>j<k. SecondaryStatus (responses w (calls w + j)) \<notin> set [''Training'', ''Completed'']"
    "SecondaryStatus (responses w (calls w + k)) \<in> set [''Training'', ''Completed'']"
  let ?w = "w\<lparr>calls := calls w + 1\<rparr>"
  let ?d = "responses w (calls w)"
  have s: "status_cell w = poll_loop ?w ?d"
    using a(1) by (simp add: status_cell_def describe_training_job_def)
  show "status_cell w =
        Some (responses w (calls w + k), w\<lparr>calls := calls w + k + 1, slept := slept w + 15 * k\<rparr>)"
  proof (cases k)
    case 0
    with a(3) show ?thesis unfolding s by (subst poll_loop.simps) simp
  next
    case (Suc m)
    have 1: "SecondaryStatus (responses ?w (calls ?w + m)) \<in> set [''Training'', ''Completed'']"
      using a(3) Suc by simp
    have 2: "\<forall>j<m. SecondaryStatus (responses ?w (calls ?w + j)) \<notin> set [''Training'', ''Completed'']"
      using a(2) Suc by auto
    have 3: "SecondaryStatus ?d \<notin> set [''Training'', ''Completed'']"
      using a(2) Suc by auto
    from poll_loop_run [OF 1 2 3] Suc show ?thesis unfolding s by simp
  qed
qed

lemma status_cell_behaviour_example:
  "status_cell example_service =
     Some (\<lparr>TrainingJobStatus = ''InProgress'', SecondaryStatus = ''Training''\<rparr>,
           example_service\<lparr>calls := 3, slept := 30\<rparr>)"
proof -
  have "TrainingJobStatus (responses example_service (calls example_service)) \<noteq> ''Completed''"
    by (simp add: example_service_def example_responses_def)
  moreover have "\<forall>j<2. SecondaryStatus (responses example_service (calls example_service + j))
      \<notin> set [''Training'', ''Completed'']"
    by (simp add: example_service_def example_responses_def)
  moreover have "SecondaryStatus (responses example_service (calls example_service + 2))
      \<in> set [''Training'', ''Completed'']"
    by (simp add: example_service_def example_responses_def)
  ultimately have "status_cell example_service =
        Some (responses example_service (calls example_service + 2),
          example_service\<lparr>calls := calls example_service + 2 + 1,
                           slept := slept example_service + 15 * 2\<rparr>)"
    using status_cell_behaviour [of example_service _ _ 2] by blast
  then show ?thesis by (simp add: example_service_def example_responses_def)
qed

text \<open>A job that has failed is polled for ever.\<close>

lemma status_cell_never_returns_on_failed_job: "status_cell failed_service = None"
proof -
  have "TrainingJobStatus (responses failed_service (calls failed_service)) \<noteq> ''Completed''"
    by (simp add: failed_service_def)
  moreover have "\<forall>j. SecondaryStatus (responses failed_service (calls failed_service + j))
      \<notin> set [''Training'', ''Completed'']"
    by (simp add: failed_service_def)
  ultimately show ?thesis
    using status_cell_behaviour [of failed_service] by blast
qed


section \<open>Properties of the data cells\<close>

subsection \<open>The transformation\<close>

lemma dummies_underscore:
  "(n, c) \<in> set (dummies_1d (name, col)) \<Longrightarrow> is_object col \<Longrightarrow> CHR ''_'' \<in> set n"
  by (cases col) auto

lemma drop_labels_no_underscore: "l \<in> set drop_labels \<Longrightarrow> CHR ''_'' \<notin> set l"
  by (auto simp: drop_labels_def)

lemma dummies_kept:
  "filter (\<lambda>(n, c). n \<notin> set drop_labels)
     (concat (map dummies_1d (filter (\<lambda>(n, c). is_object c) cols))) =
   concat (map dummies_1d (filter (\<lambda>(n, c). is_object c) cols))"
proof (rule filter_True, clarify)
  fix n c
  assume "(n, c) \<in> set (concat (map dummies_1d (filter (\<lambda>(n, c). is_object c) cols)))"
    and "n \<in> set drop_labels"
  then obtain name col where "(n, c) \<in> set (dummies_1d (name, col))" "is_object col"
    by auto
  from dummies_underscore [OF this] drop_labels_no_underscore [OF \<open>n \<in> set drop_labels\<close>]
  show False by simp
qed

lemma example_clean_closed:
  "\<lparr>index = index example_data,
    columns = [(n, c) \<leftarrow> columns example_data. \<not> is_object c \<and> n \<notin> set drop_labels] @
      [(''no_previous_contact'', NumCol (map (\<lambda>x. if x = 999 then 1 else 0) [999, 999, 6, 999 :: rat])),
       (''not_working'', NumCol (map (\<lambda>x. if x \<in> set [''student'', ''retired'', ''unemployed''] then 1 else 0)
           [''housemaid'', ''retired'', ''student'', ''admin.'']))] @
      concat (map dummies_1d [(n, c) \<leftarrow> columns example_data. is_object c])\<rparr> = example_model_data"
  by code_simp

text \<open>
  Claim C3. On a table with distinct labels that has the numeric column \<open>pdays\<close>, the
  categorical column \<open>job\<close> and the six columns of \<open>drop_labels\<close> as numeric columns,
  and that has no column named like the two new ones, the transformation cells return
  a table with the same rows (the same index) whose columns are: the numeric columns of
  the input other than the six dropped ones, unchanged; the indicator
  \<open>no_previous_contact\<close>, 1 where \<open>pdays\<close> is 999 and 0 elsewhere; the indicator
  \<open>not_working\<close>, 1 where \<open>job\<close> is \<open>student\<close>, \<open>retired\<close> or \<open>unemployed\<close> and 0
  elsewhere; and, for every categorical column, one indicator column for each of its
  distinct values.
\<close>

theorem clean_derives_table:
  assumes "distinct (col_names data)"
      and "map_of (columns data) ''pdays'' = Some (NumCol pdays)"
      and "map_of (columns data) ''job'' = Some (StrCol job)"
      and "''no_previous_contact'' \<notin> set (col_names data)"
      and "''not_working'' \<notin> set (col_names data)"
      and "\<forall>l\<in>set drop_labels. \<exists>xs. (l, NumCol xs) \<in> set (columns data)"
  shows "clean data =
     Inr \<lparr>index = index data,
          columns =
            [(n, c) \<leftarrow> columns data. \<not> is_object c \<and> n \<notin> set drop_labels] @
            [(''no_previous_contact'', NumCol (map (\<lambda>x. if x = 999 then 1 else 0) pdays)),
             (''not_working'',
                NumCol (map (\<lambda>x. if x \<in> set [''student'', ''retired'', ''unemployed''] then 1 else 0) job))] @
            concat (map dummies_1d [(n, c) \<leftarrow> columns data. is_object c])\<rparr>"
proof -
  let ?c1 = "NumCol (map (\<lambda>x. if x = 999 then 1 else 0) pdays)"
  let ?c2 = "NumCol (map (\<lambda>x. if x \<in> set [''student'', ''retired'', ''unemployed''] then 1 else 0) job)"
  let ?data1 = "data\<lparr>columns := columns data @ [(''no_previous_contact'', ?c1)]\<rparr>"
  let ?data2 = "data\<lparr>columns := columns data @ [(''no_previous_contact'', ?c1), (''not_working'', ?c2)]\<rparr>"
  let ?md = "get_dummies ?data2"
  have g1: "getitem data ''pdays'' = Inr (NumCol pdays)"
    using assms(2) by (simp add: getitem_def)
  have w1: "np_where (eq_scalar (NumCol pdays) 999) 1 0 = ?c1"
    by (simp add: np_where_def comp_def)
  have s1: "setitem data ''no_previous_contact'' ?c1 = ?data1"
    using assms(4) by (simp add: setitem_def)
  have g2: "getitem ?data1 ''job'' = Inr (StrCol job)"
    using assms(3) by (simp add: getitem_def map_add_def)
  have w2: "np_where (np_in1d (StrCol job) [''student'', ''retired'', ''unemployed'']) 1 0 = ?c2"
    by (simp add: np_where_def comp_def)
  have s2: "setitem ?data1 ''not_working'' ?c2 = ?data2"
    using assms(5) by (simp add: setitem_def col_names_def)
  have md: "?md = data\<lparr>columns :=
      [(n, c) \<leftarrow> columns data. \<not> is_object c] @
      [(''no_previous_contact'', ?c1), (''not_working'', ?c2)] @
      concat (map dummies_1d [(n, c) \<leftarrow> columns data. is_object c])\<rparr>"
    by (simp add: get_dummies_def)
  have present: "filter (\<lambda>l. l \<notin> set (col_names ?md)) drop_labels = []"
  proof -
    have "l \<in> set (col_names ?md)" if "l \<in> set drop_labels" for l
    proof -
      from assms(6) that obtain xs where "(l, NumCol xs) \<in> set (columns data)" by blast
      then have "(l, NumCol xs) \<in> set [(n, c) \<leftarrow> columns data. \<not> is_object c]" by simp
      then have "l \<in> fst ` set [(n, c) \<leftarrow> columns data. \<not> is_object c]" by force
      then show ?thesis unfolding md by (simp add: col_names_def)
    qed
    then show ?thesis by (simp add: filter_empty_conv)
  qed
  have new: "''no_previous_contact'' \<notin> set drop_labels" "''not_working'' \<notin> set drop_labels"
    by (simp_all add: drop_labels_def)
  have "drop_axis1 ?md drop_labels =
      Inr (?md\<lparr>columns := filter (\<lambda>(n, c). n \<notin> set drop_labels) (columns ?md)\<rparr>)"
    by (simp only: drop_axis1_def present list.case)
  also have "filter (\<lambda>(n, c). n \<notin> set drop_labels) (columns ?md) =
      [(n, c) \<leftarrow> columns data. \<not> is_object c \<and> n \<notin> set drop_labels] @
      [(''no_previous_contact'', ?c1), (''not_working'', ?c2)] @
      concat (map dummies_1d [(n, c) \<leftarrow> columns data. is_object c])"
    unfolding md using new by (simp add: dummies_kept [unfolded case_prod_unfold] case_prod_unfold)
  finally have d: "drop_axis1 ?md drop_labels = Inr (?md\<lparr>columns :=
      [(n, c) \<leftarrow> columns data. \<not> is_object c \<and> n \<notin> set drop_labels] @
      [(''no_previous_contact'', ?c1), (''not_working'', ?c2)] @
      concat (map dummies_1d [(n, c) \<leftarrow> columns data. is_object c])\<rparr>)" .
  have "clean data = drop_axis1 ?md drop_labels"
    unfolding clean_def g1 by (simp only: sum.case Let_def w1 s1 g2 w2 s2)
  also note d
  finally show ?thesis by (simp add: get_dummies_def)
qed

theorem clean_derives_table_witness:
  "clean example_data = Inr example_model_data"
proof -
  have 1: "distinct (col_names example_data)"
    by (simp add: col_names_def example_data_def)
  have 2: "map_of (columns example_data) ''pdays'' = Some (NumCol [999, 999, 6, 999])"
    by (simp add: example_data_def)
  have 3: "map_of (columns example_data) ''job'' =
      Some (StrCol [''housemaid'', ''retired'', ''student'', ''admin.''])"
    by (simp add: example_data_def)
  have 4: "''no_previous_contact'' \<notin> set (col_names example_data)"
    and 5: "''not_working'' \<notin> set (col_names example_data)"
    by (simp_all add: col_names_def example_data_def)
  have 6: "\<forall>l\<in>set drop_labels. \<exists>xs. (l, NumCol xs) \<in> set (columns example_data)"
    by (simp add: drop_labels_def example_data_def)
  from clean_derives_table [OF 1 2 3 4 5 6] show ?thesis
    unfolding example_clean_closed .
qed

subsection \<open>The split points\<close>

lemma bitlen_bounds: "0 < n \<Longrightarrow> 2 ^ (bitlen n - 1) \<le> n \<and> n < 2 ^ bitlen n"
proof (induction n rule: bitlen.induct)
  case (1 n)
  show ?case
  proof (cases "n div 2 = 0")
    case True
    with "1.prems" have "n = 1" by presburger
    then show ?thesis by (simp add: bitlen.simps)
  next
    case False
    then have pos: "0 < n div 2" by simp
    from "1.IH" [OF _ pos] "1.prems"
    have ih: "2 ^ (bitlen (n div 2) - 1) \<le> n div 2" "n div 2 < 2 ^ bitlen (n div 2)" by simp_all
    from pos have bl: "0 < bitlen (n div 2)" by (subst bitlen.simps) simp
    have eq: "bitlen n = Suc (bitlen (n div 2))" using "1.prems" by (subst bitlen.simps) simp
    have "2 ^ (bitlen n - 1) = 2 * 2 ^ (bitlen (n div 2) - 1)"
      using bl unfolding eq by (cases "bitlen (n div 2)") simp_all
    also have "\<dots> \<le> 2 * (n div 2)" using ih(1) by simp
    also have "\<dots> \<le> n" by simp
    finally have lo: "2 ^ (bitlen n - 1) \<le> n" .
    have "n < 2 * (n div 2) + 2" by presburger
    also have "\<dots> \<le> 2 * 2 ^ bitlen (n div 2)" using ih(2) by simp
    finally have "n < 2 ^ bitlen n" unfolding eq by simp
    with lo show ?thesis by simp
  qed
qed

lemma round53_error:
  "round53 P * 2 ^ 53 \<le> P * 2 ^ 53 + P \<and> P * 2 ^ 53 \<le> round53 P * 2 ^ 53 + P"
proof (cases "bitlen P \<le> 53")
  case True
  then show ?thesis by (simp add: round53_def)
next
  case False
  define s where "s = bitlen P - 53"
  define m where "m = P div 2 ^ s"
  define r where "r = P mod 2 ^ s"
  define h :: nat where "h = 2 ^ (s - 1)"
  from False have s: "0 < s" "bitlen P = s + 53" by (simp_all add: s_def)
  then have Ppos: "0 < P" by (cases "P = 0") (simp_all add: bitlen.simps)
  have hh: "2 ^ s = 2 * h" using s(1) unfolding h_def by (cases s) simp_all
  have "P = P div 2 ^ s * 2 ^ s + P mod 2 ^ s" by (rule div_mult_mod_eq [symmetric])
  then have P: "P = m * (2 * h) + r" unfolding m_def r_def hh .
  have "P mod 2 ^ s < 2 ^ s" by simp
  then have r: "r < 2 * h" unfolding r_def hh .
  from bitlen_bounds [OF Ppos] have "2 ^ (s + 52) \<le> P" unfolding s(2) by (simp add: add.commute)
  moreover have "(2::nat) ^ (s + 52) = h * 2 ^ 53"
    using s(1) unfolding h_def by (cases s) (simp_all add: power_add)
  ultimately have hP: "h * 2 ^ 53 \<le> P" by simp
  have "round53 P = (if h < r \<or> (r = h \<and> odd m) then m + 1 else m) * 2 ^ s"
    unfolding h_def r_def m_def s_def using False by (simp add: round53_def Let_def)
  then have R: "round53 P = (if h < r \<or> (r = h \<and> odd m) then m + 1 else m) * (2 * h)"
    unfolding hh .
  show ?thesis
  proof (cases "h < r \<or> (r = h \<and> odd m)")
    case True
    then have "h \<le> r" by auto
    from True have R': "round53 P = (m + 1) * (2 * h)" unfolding R by (simp only: if_True)
    have "round53 P \<le> P + h" unfolding R' using P \<open>h \<le> r\<close> by (simp add: algebra_simps)
    then have "round53 P * 2 ^ 53 \<le> (P + h) * 2 ^ 53" by (rule mult_le_mono1)
    also have "\<dots> = P * 2 ^ 53 + h * 2 ^ 53" by (simp add: algebra_simps)
    also have "\<dots> \<le> P * 2 ^ 53 + P" using hP by simp
    finally have up: "round53 P * 2 ^ 53 \<le> P * 2 ^ 53 + P" .
    have "P \<le> round53 P" unfolding R' using P r by (simp add: algebra_simps)
    then have "P * 2 ^ 53 \<le> round53 P * 2 ^ 53" by (rule mult_le_mono1)
    with up show ?thesis by simp
  next
    case False
    then have "r \<le> h" by auto
    from False have R': "round53 P = m * (2 * h)" unfolding R by (simp only: if_False)
    have "round53 P \<le> P" unfolding R' using P by simp
    then have "round53 P * 2 ^ 53 \<le> P * 2 ^ 53" by (rule mult_le_mono1)
    then have up: "round53 P * 2 ^ 53 \<le> P * 2 ^ 53 + P" by simp
    have "P \<le> round53 P + h" unfolding R' using P \<open>r \<le> h\<close> by simp
    then have "P * 2 ^ 53 \<le> (round53 P + h) * 2 ^ 53" by (rule mult_le_mono1)
    also have "\<dots> = round53 P * 2 ^ 53 + h * 2 ^ 53" by (simp add: algebra_simps)
    also have "\<dots> \<le> round53 P * 2 ^ 53 + P" using hP by simp
    finally show ?thesis using up by simp
  qed
qed

lemma split_points_ordered:
  "int_float_times float_0_7 n \<le> int_float_times float_0_9 n \<and>
   int_float_times float_0_9 n \<le> n"
proof -
  define K :: nat where "K = 2 ^ 53"
  define f where "f = round53 n"
  define A where "A = round53 (float_0_7 * f)"
  define B where "B = round53 (float_0_9 * f)"
  have c79: "float_0_7 * (K + 1) \<le> float_0_9 * K - float_0_9"
    by (simp add: K_def float_0_7_def float_0_9_def)
  have c9: "float_0_9 * (K + 1) * (K + 1) \<le> K * K * K"
    by (simp add: K_def float_0_7_def float_0_9_def)
  have eA: "A * K \<le> float_0_7 * f * K + float_0_7 * f"
    using round53_error [of "float_0_7 * f"] by (simp add: A_def K_def)
  have eB: "float_0_9 * f * K \<le> B * K + float_0_9 * f" "B * K \<le> float_0_9 * f * K + float_0_9 * f"
    using round53_error [of "float_0_9 * f"] by (simp_all add: B_def K_def)
  have ef: "f * K \<le> n * K + n"
    using round53_error [of n] by (simp add: f_def K_def)
  have "A * K \<le> (float_0_7 * (K + 1)) * f" using eA by (simp add: algebra_simps)
  also have "\<dots> \<le> (float_0_9 * K - float_0_9) * f" using c79 by (rule mult_le_mono1)
  also have "\<dots> = float_0_9 * f * K - float_0_9 * f" by (simp add: algebra_simps diff_mult_distrib)
  also have "\<dots> \<le> B * K" using eB(1) by simp
  finally have "A \<le> B" by (simp add: K_def)
  then have ab: "A div K \<le> B div K" by (rule div_le_mono)
  have "B * K * K \<le> (float_0_9 * f * K + float_0_9 * f) * K" using eB(2) by (rule mult_le_mono1)
  also have "\<dots> = float_0_9 * (K + 1) * (f * K)" by (simp add: algebra_simps)
  also have "\<dots> \<le> float_0_9 * (K + 1) * (n * K + n)" using ef by (rule mult_le_mono2)
  also have "\<dots> = (float_0_9 * (K + 1) * (K + 1)) * n" by (simp add: algebra_simps)
  also have "\<dots> \<le> (K * K * K) * n" using c9 by (rule mult_le_mono1)
  finally have "B * (K * K) \<le> (n * K) * (K * K)" by (simp add: algebra_simps)
  then have "B \<le> n * K" by (simp add: K_def)
  then have "B div K \<le> n * K div K" by (rule div_le_mono)
  then have "B div K \<le> n" by (simp add: K_def)
  with ab show ?thesis
    by (simp add: int_float_times_def A_def B_def f_def K_def)
qed

lemma bitlen_numeral:
  "bitlen 0 = 0" "bitlen 1 = 1"
  "bitlen (numeral (Num.Bit0 k)) = 1 + bitlen (numeral k)"
  "bitlen (numeral (Num.Bit1 k)) = 1 + bitlen (numeral k)"
  "bitlen (numeral Num.One) = 1" "bitlen (Suc 0) = 1"
proof -
  show "bitlen 0 = 0" "bitlen 1 = 1" by (simp_all add: bitlen.simps)
  then show "bitlen (numeral Num.One) = 1" "bitlen (Suc 0) = 1" by simp_all
  have "numeral (Num.Bit0 k) div (2::nat) = numeral k" by simp
  then show "bitlen (numeral (Num.Bit0 k)) = 1 + bitlen (numeral k)"
    by (subst bitlen.simps) simp
  have "numeral (Num.Bit1 k) div (2::nat) = numeral k" by simp
  then show "bitlen (numeral (Num.Bit1 k)) = 1 + bitlen (numeral k)"
    by (subst bitlen.simps) simp
qed

text \<open>
  The split points on 4 rows, on the 41188 rows of the bank data set, and on 90 rows, where
  the rounding of \<open>0.7 * 90\<close> to \<open>62.99999999999999\<close> shows: \<open>int\<close> gives 62, not 63.
\<close>

lemma split_points_values_90: "int_float_times float_0_7 90 = 62"
  by (simp add: int_float_times_def round53_def float_0_7_def bitlen_numeral Let_def)

lemma split_points_values_4: "int_float_times float_0_7 4 = 2" "int_float_times float_0_9 4 = 3"
  by (simp_all add: int_float_times_def round53_def float_0_7_def float_0_9_def bitlen_numeral Let_def)

lemma split_points_values_41188: "int_float_times float_0_7 41188 = 28831" "int_float_times float_0_9 41188 = 37069"
  by (simp_all add: int_float_times_def round53_def float_0_7_def float_0_9_def bitlen_numeral Let_def)

subsection \<open>The split\<close>

lemma slice_map: "slice (map f xs) st en = map f (slice xs st en)"
  by (simp add: slice_def take_map drop_map)

lemma col_slice_take: "col_slice (col_take c ps) st en = col_take c (slice ps st en)"
  by (cases c) (simp_all add: slice_map)

lemma iloc_take_rows: "iloc (take_rows df ps) st en = take_rows df (slice ps st en)"
  by (simp add: iloc_def take_rows_def slice_map col_slice_take case_prod_unfold)

lemma nrows_take_rows: "nrows (take_rows df ps) = length ps"
  by (simp add: nrows_def take_rows_def)

lemma is_permutation_props:
  assumes "is_permutation ps n"
  shows "length ps = n" "distinct ps" "set ps = {0..<n}"
proof -
  from assms have s: "sort ps = [0..<n]" by (simp add: is_permutation_def)
  have "length ps = length (sort ps)" by simp
  then show "length ps = n" unfolding s by simp
  have "distinct (sort ps)" unfolding s by simp
  then show "distinct ps" by simp
  have "set ps = set (sort ps)" by simp
  then show "set ps = {0..<n}" unfolding s by simp
qed

lemma three_slices:
  assumes "a \<le> b" "b \<le> length ps"
  shows "slice ps 0 a @ slice ps a b @ slice ps b (length ps) = ps"
    and "length (slice ps 0 a) = a" "length (slice ps a b) = b - a"
    and "length (slice ps b (length ps)) = length ps - b"
proof -
  have "take a ps = take a (take b ps)" using assms(1) by (simp add: min_def)
  then have "take a ps @ drop a (take b ps) = take b ps" by (metis append_take_drop_id)
  then show "slice ps 0 a @ slice ps a b @ slice ps b (length ps) = ps"
    by (simp add: slice_def flip: append_assoc)
  show "length (slice ps 0 a) = a" "length (slice ps a b) = b - a"
    "length (slice ps b (length ps)) = length ps - b"
    using assms by (simp_all add: slice_def)
qed

lemma example_split:
  "fst (split_cell example_numpy g example_model_data) = (example_train, example_validation, example_test)"
proof -
  have n: "nrows example_model_data = 4" by (simp add: nrows_def example_model_data_def)
  have p: "fst (permutation example_numpy (RandomState example_numpy 1729) 4) = [3, 2, 1, 0]"
    by code_simp
  have "fst (split_cell example_numpy g example_model_data) =
      np_split (take_rows example_model_data [3, 2, 1, 0]) 2 3"
    by (simp add: split_cell_def sample_def n p split_points_values_4)
  also have "\<dots> = (example_train, example_validation, example_test)"
    by (simp add: np_split_def iloc_def take_rows_def slice_def nrows_def
      example_model_data_def example_train_def example_validation_def example_test_def)
  finally show ?thesis .
qed

lemma cell_at_col_take: "j < length ps \<Longrightarrow> cell_at (col_take c ps) j = cell_at c (ps ! j)"
  by (cases c) simp_all

lemma row_at_take_rows:
  "j < length ps \<Longrightarrow> row_at (take_rows df ps) j = row_at df (ps ! j)"
  by (simp add: row_at_def take_rows_def cell_at_col_take case_prod_unfold comp_def)

lemma rows_take_rows: "rows (take_rows df ps) = map (row_at df) ps"
proof -
  have "rows (take_rows df ps) = map (\<lambda>j. row_at df (ps ! j)) [0..<length ps]"
    by (simp add: rows_def nrows_take_rows row_at_take_rows)
  also have "\<dots> = map (row_at df) (map (\<lambda>j. ps ! j) [0..<length ps])"
    by (simp add: comp_def)
  also have "map (\<lambda>j. ps ! j) [0..<length ps] = ps" by (rule map_nth)
  finally show ?thesis .
qed

lemma col_names_take_rows: "col_names (take_rows df ps) = col_names df"
  by (simp add: col_names_def take_rows_def case_prod_unfold comp_def)

lemma split_positions:
  assumes "draws_permutations np 1729 (nrows model_data)"
  shows "\<exists>tr va te.
     fst (split_cell np g model_data) =
       (take_rows model_data tr, take_rows model_data va, take_rows model_data te) \<and>
     tr @ va @ te = fst (permutation np (RandomState np 1729) (nrows model_data)) \<and>
     set tr \<inter> set va = {} \<and> set tr \<inter> set te = {} \<and> set va \<inter> set te = {} \<and>
     distinct tr \<and> distinct va \<and> distinct te \<and>
     set tr \<union> set va \<union> set te = {0..<nrows model_data} \<and>
     int_float_times float_0_7 (nrows model_data) \<le> int_float_times float_0_9 (nrows model_data) \<and>
     int_float_times float_0_9 (nrows model_data) \<le> nrows model_data \<and>
     nrows (take_rows model_data tr) = int_float_times float_0_7 (nrows model_data) \<and>
     nrows (take_rows model_data va) =
       int_float_times float_0_9 (nrows model_data) - int_float_times float_0_7 (nrows model_data) \<and>
     nrows (take_rows model_data te) = nrows model_data - int_float_times float_0_9 (nrows model_data) \<and>
     nrows (take_rows model_data tr) + nrows (take_rows model_data va) +
       nrows (take_rows model_data te) = nrows model_data"
proof -
  define n where "n = nrows model_data"
  define ps where "ps = fst (permutation np (RandomState np 1729) n)"
  define a where "a = int_float_times float_0_7 n"
  define b where "b = int_float_times float_0_9 n"
  from assms have "is_permutation ps n" by (simp add: draws_permutations_def ps_def n_def)
  from is_permutation_props [OF this]
  have len: "length ps = n" and dist: "distinct ps" and st: "set ps = {0..<n}" .
  from split_points_ordered [of n] have ab: "a \<le> b" and bn: "b \<le> length ps"
    by (simp_all add: a_def b_def len)
  let ?tr = "slice ps 0 a" and ?va = "slice ps a b" and ?te = "slice ps b n"
  from three_slices [OF ab bn]
  have cat: "?tr @ ?va @ ?te = ps" and l: "length ?tr = a" "length ?va = b - a" "length ?te = n - b"
    by (simp_all add: len)
  have d: "distinct (?tr @ ?va @ ?te)" and s: "set (?tr @ ?va @ ?te) = {0..<n}"
    unfolding cat by (rule dist, rule st)
  have cell: "fst (split_cell np g model_data) =
      (take_rows model_data ?tr, take_rows model_data ?va, take_rows model_data ?te)"
    by (simp add: split_cell_def sample_def np_split_def iloc_take_rows nrows_take_rows
        n_def [symmetric] ps_def [symmetric] a_def [symmetric] b_def [symmetric] len)
  from d have disj: "set ?tr \<inter> set ?va = {}" "set ?tr \<inter> set ?te = {}" "set ?va \<inter> set ?te = {}"
    "distinct ?tr" "distinct ?va" "distinct ?te" by auto
  from s have un: "set ?tr \<union> set ?va \<union> set ?te = {0..<n}" by (simp add: Un_assoc)
  have sum: "a + (b - a) + (n - b) = n" using ab bn len by simp
  show ?thesis
    unfolding n_def [symmetric] a_def [symmetric] b_def [symmetric] ps_def [symmetric]
    apply (rule exI [of _ ?tr], rule exI [of _ ?va], rule exI [of _ ?te])
    using cell cat disj un ab bn l sum
    by (simp add: nrows_take_rows len n_def [symmetric] a_def [symmetric] b_def [symmetric]
        ps_def [symmetric])
qed

text \<open>
  Claim C2. When the seeded generator draws a permutation of the row positions, the
  three parts of the split have the columns of the table, and their rows are the rows
  of the table at three lists of positions which, one after the other, are that
  permutation: the lists are pairwise disjoint, without repetition, and together they
  are all positions of the table. So every row of the table is in a part and every row of
  a part is a row of the table, and when the row labels are distinct no row is in two
  parts or twice in one. The split points are \<open>int(0.7 * n)\<close> and \<open>int(0.9 * n)\<close>, the
  first not above the second and the second not above \<open>n\<close>, so the parts have
  \<open>int(0.7 * n)\<close>, \<open>int(0.9 * n) - int(0.7 * n)\<close> and \<open>n - int(0.9 * n)\<close> rows, which
  add up to \<open>n\<close>.
\<close>

theorem split_partitions_rows:
  assumes "draws_permutations np 1729 (nrows model_data)"
  shows "\<exists>train_data validation_data test_data tr va te.
     fst (split_cell np g model_data) = (train_data, validation_data, test_data) \<and>
     rows train_data = map (row_at model_data) tr \<and>
     rows validation_data = map (row_at model_data) va \<and>
     rows test_data = map (row_at model_data) te \<and>
     col_names train_data = col_names model_data \<and>
     col_names validation_data = col_names model_data \<and>
     col_names test_data = col_names model_data \<and>
     tr @ va @ te = fst (permutation np (RandomState np 1729) (nrows model_data)) \<and>
     set tr \<inter> set va = {} \<and> set tr \<inter> set te = {} \<and> set va \<inter> set te = {} \<and>
     distinct tr \<and> distinct va \<and> distinct te \<and>
     set tr \<union> set va \<union> set te = {0..<nrows model_data} \<and>
     set (rows train_data) \<union> set (rows validation_data) \<union> set (rows test_data) =
       set (rows model_data) \<and>
     (distinct (index model_data) \<longrightarrow>
        distinct (rows train_data @ rows validation_data @ rows test_data)) \<and>
     int_float_times float_0_7 (nrows model_data) \<le> int_float_times float_0_9 (nrows model_data) \<and>
     int_float_times float_0_9 (nrows model_data) \<le> nrows model_data \<and>
     nrows train_data = int_float_times float_0_7 (nrows model_data) \<and>
     nrows validation_data =
       int_float_times float_0_9 (nrows model_data) - int_float_times float_0_7 (nrows model_data) \<and>
     nrows test_data = nrows model_data - int_float_times float_0_9 (nrows model_data) \<and>
     nrows train_data + nrows validation_data + nrows test_data = nrows model_data"
proof -
  from split_positions [OF assms, of g] obtain tr va te where
    cell: "fst (split_cell np g model_data) =
       (take_rows model_data tr, take_rows model_data va, take_rows model_data te)"
    and cat: "tr @ va @ te = fst (permutation np (RandomState np 1729) (nrows model_data))"
    and disj: "set tr \<inter> set va = {}" "set tr \<inter> set te = {}" "set va \<inter> set te = {}"
    and dist: "distinct tr" "distinct va" "distinct te"
    and un: "set tr \<union> set va \<union> set te = {0..<nrows model_data}"
    and pts: "int_float_times float_0_7 (nrows model_data) \<le> int_float_times float_0_9 (nrows model_data)"
      "int_float_times float_0_9 (nrows model_data) \<le> nrows model_data"
    and cnt: "nrows (take_rows model_data tr) = int_float_times float_0_7 (nrows model_data)"
      "nrows (take_rows model_data va) =
       int_float_times float_0_9 (nrows model_data) - int_float_times float_0_7 (nrows model_data)"
      "nrows (take_rows model_data te) = nrows model_data - int_float_times float_0_9 (nrows model_data)"
      "nrows (take_rows model_data tr) + nrows (take_rows model_data va) +
       nrows (take_rows model_data te) = nrows model_data"
    by blast
  let ?f = "row_at model_data"
  have "set (map ?f tr) \<union> set (map ?f va) \<union> set (map ?f te) = ?f ` (set tr \<union> set va \<union> set te)"
    by auto
  also have "\<dots> = set (rows model_data)" unfolding un by (simp add: rows_def)
  finally have all: "set (rows (take_rows model_data tr)) \<union> set (rows (take_rows model_data va)) \<union>
      set (rows (take_rows model_data te)) = set (rows model_data)"
    by (simp only: rows_take_rows)
  have sep: "distinct (rows (take_rows model_data tr) @ rows (take_rows model_data va) @
      rows (take_rows model_data te))" if di: "distinct (index model_data)"
  proof -
    have inj: "inj_on ?f {0..<nrows model_data}"
    proof (rule inj_onI)
      fix i j
      assume "i \<in> {0..<nrows model_data}" "j \<in> {0..<nrows model_data}" "?f i = ?f j"
      then have "i < length (index model_data)" "j < length (index model_data)"
        "index model_data ! i = index model_data ! j"
        by (simp_all add: nrows_def row_at_def)
      with di show "i = j" by (simp add: nth_eq_iff_index_eq)
    qed
    define ps where "ps = tr @ va @ te"
    have "distinct ps" using dist disj by (auto simp: ps_def)
    moreover have "set ps = {0..<nrows model_data}" using un by (auto simp: ps_def)
    ultimately have "distinct (map ?f ps)" using inj by (simp add: distinct_map)
    then show ?thesis unfolding ps_def by (simp only: rows_take_rows map_append)
  qed
  from sep have sep': "distinct (index model_data) \<longrightarrow>
      distinct (rows (take_rows model_data tr) @ rows (take_rows model_data va) @
        rows (take_rows model_data te))" by blast
  show ?thesis
    apply (rule exI [of _ "take_rows model_data tr"], rule exI [of _ "take_rows model_data va"],
           rule exI [of _ "take_rows model_data te"],
           rule exI [of _ tr], rule exI [of _ va], rule exI [of _ te])
    using cell cat disj dist un all sep' pts cnt
    by (simp only: rows_take_rows col_names_take_rows simp_thms)
qed

theorem split_partitions_rows_witness:
  "draws_permutations example_numpy 1729 (nrows example_model_data) \<and>
   (\<exists>train_data validation_data test_data.
      fst (split_cell example_numpy 0 example_model_data) =
        (train_data, validation_data, test_data) \<and>
      rows train_data = rows example_train \<and>
      rows validation_data = rows example_validation \<and>
      rows test_data = rows example_test \<and>
      col_names train_data = col_names example_model_data \<and>
      nrows train_data = 2 \<and> nrows validation_data = 1 \<and> nrows test_data = 1)"
proof -
  have n: "nrows example_model_data = 4" by (simp add: nrows_def example_model_data_def)
  have p: "fst (permutation example_numpy (RandomState example_numpy 1729) 4) = [3, 2, 1, 0]"
    by code_simp
  have srt: "sort [3, 2, 1, 0 :: nat] = [0..<4]" by code_simp
  have h: "draws_permutations example_numpy 1729 (nrows example_model_data)"
    by (simp only: draws_permutations_def is_permutation_def n p srt)
  from split_partitions_rows [OF h, of 0]
  obtain train_data validation_data test_data tr va te where
    c: "fst (split_cell example_numpy 0 example_model_data) =
        (train_data, validation_data, test_data)"
    and r: "rows train_data = map (row_at example_model_data) tr"
      "rows validation_data = map (row_at example_model_data) va"
      "rows test_data = map (row_at example_model_data) te"
    and cn: "col_names train_data = col_names example_model_data"
    and cat: "tr @ va @ te = [3, 2, 1, 0]"
    and l: "nrows train_data = int_float_times float_0_7 4"
      "nrows validation_data = int_float_times float_0_9 4 - int_float_times float_0_7 4"
      "nrows test_data = 4 - int_float_times float_0_9 4"
    unfolding n p by blast
  from l have nr: "nrows train_data = 2" "nrows validation_data = 1" "nrows test_data = 1"
    by (simp_all add: split_points_values_4)
  have "length (rows df) = nrows df" for df by (simp add: rows_def)
  from this [of train_data] this [of validation_data] r nr
  have "length tr = 2" "length va = 1" by simp_all
  with cat have "tr = [3, 2] \<and> va = [1] \<and> te = [0]"
    by (auto simp: append_eq_Cons_conv length_Suc_conv numeral_2_eq_2)
  moreover have "map (row_at example_model_data) [3, 2] = rows example_train"
    "map (row_at example_model_data) [1] = rows example_validation"
    "map (row_at example_model_data) [0] = rows example_test"
    by code_simp+
  ultimately have "rows train_data = rows example_train"
    "rows validation_data = rows example_validation" "rows test_data = rows example_test"
    using r by simp_all
  with c cn nr h show ?thesis by blast
qed

text \<open>
  Without a seed the order of the rows follows the state of the global generator: the toy
  generator gives the given order in state 0 and the reversed one in state 1.
\<close>

lemma sample_unseeded_depends:
  "index (fst (sample example_numpy None 0 example_model_data)) = [0, 1, 2, 3]"
  "index (fst (sample example_numpy None 1 example_model_data)) = [3, 2, 1, 0]"
  by code_simp+

lemma sample_seeded:
  "sample np (Some seed) g df =
     (take_rows df (fst (permutation np (RandomState np seed) (nrows df))), g)"
  by (simp add: sample_def)

text \<open>
  Claim C6. The three parts do not depend on the state of the global generator, which
  the cell leaves as it was: the shuffle draws from a fresh generator seeded with 1729
  and the split points are computed from the number of rows. So a second run of the
  cell on the same table, whatever ran in between, gives the same three parts.
\<close>

theorem split_is_deterministic:
  "fst (split_cell np g model_data) = fst (split_cell np g' model_data) \<and>
   snd (split_cell np g model_data) = g"
proof -
  define shuffled where
    "shuffled = take_rows model_data (fst (permutation np (RandomState np 1729) (nrows model_data)))"
  define parts where
    "parts = np_split shuffled (int_float_times float_0_7 (nrows model_data))
                              (int_float_times float_0_9 (nrows model_data))"
  have "split_cell np h model_data = (parts, h)" for h
    unfolding split_cell_def sample_seeded parts_def shuffled_def by simp
  then show ?thesis by simp
qed

theorem split_is_deterministic_witness:
  "fst (split_cell example_numpy 0 example_model_data) =
     fst (split_cell example_numpy 7 example_model_data) \<and>
   snd (split_cell example_numpy 0 example_model_data) = 0"
  using split_is_deterministic [of example_numpy 0 example_model_data 7] .

subsection \<open>The files\<close>

lemma label_first_ok:
  assumes "map_of (columns part) ''y_yes'' = Some y"
      and "''y_no'' \<in> set (col_names part)"
  shows "label_first part =
     Inr \<lparr>index = index part,
          columns = (''y_yes'', y) # [(n, c) \<leftarrow> columns part. n \<notin> set [''y_no'', ''y_yes'']]\<rparr>"
proof -
  from assms(1) have "''y_yes'' \<in> set (col_names part)"
    by (auto simp: col_names_def dest: map_of_SomeD intro: rev_image_eqI)
  with assms(2) have "filter (\<lambda>l. l \<notin> set (col_names part)) [''y_no'', ''y_yes''] = []"
    by simp
  then have "drop_axis1 part [''y_no'', ''y_yes''] =
      Inr (part\<lparr>columns := [(n, c) \<leftarrow> columns part. n \<notin> set [''y_no'', ''y_yes'']]\<rparr>)"
    by (simp only: drop_axis1_def list.case)
  with assms(1) show ?thesis
    by (simp add: label_first_def getitem_def concat_axis1_def)
qed

lemma to_csv_plain:
  "to_csv fmt df False False =
     map (\<lambda>i. map (\<lambda>(n, c). field fmt c i) (columns df)) [0..<nrows df]"
  by (simp add: to_csv_def)

lemma write_cell_ok:
  assumes "map_of (columns train_data) ''y_yes'' = Some yt"
      and "''y_no'' \<in> set (col_names train_data)"
      and "map_of (columns validation_data) ''y_yes'' = Some yv"
      and "''y_no'' \<in> set (col_names validation_data)"
  shows "write_cell fmt train_data validation_data fs =
     (Inr (),
      fs(''train.csv'' \<mapsto> to_csv fmt \<lparr>index = index train_data,
            columns = (''y_yes'', yt) # [(n, c) \<leftarrow> columns train_data. n \<notin> set [''y_no'', ''y_yes'']]\<rparr>
            False False,
         ''validation.csv'' \<mapsto> to_csv fmt \<lparr>index = index validation_data,
            columns = (''y_yes'', yv) # [(n, c) \<leftarrow> columns validation_data. n \<notin> set [''y_no'', ''y_yes'']]\<rparr>
            False False))"
  unfolding write_cell_def label_first_ok [OF assms(1,2)] label_first_ok [OF assms(3,4)]
  by (simp only: sum.case Let_def)

text \<open>
  Claim C4. For two parts with distinct labels that have the columns \<open>y_yes\<close> (numeric)
  and \<open>y_no\<close>, the cell returns and has written \<open>train.csv\<close> and \<open>validation.csv\<close>.
  Each file has as many records as its part has rows, and the \<open>i\<close>-th record is the
  \<open>i\<close>-th row: first the value of \<open>y_yes\<close>, then the values of the feature columns.
  No record holds the column labels. (A record is one line of the file, no field of a
  numeric column containing a line break.)
\<close>

theorem files_label_first_no_header:
  assumes "distinct (col_names train_data)" and "well_formed train_data"
      and "map_of (columns train_data) ''y_yes'' = Some (NumCol yt)"
      and "''y_no'' \<in> set (col_names train_data)"
      and "distinct (col_names validation_data)" and "well_formed validation_data"
      and "map_of (columns validation_data) ''y_yes'' = Some (NumCol yv)"
      and "''y_no'' \<in> set (col_names validation_data)"
  shows "\<exists>train_csv validation_csv.
     write_cell fmt train_data validation_data fs =
       (Inr (), fs(''train.csv'' \<mapsto> train_csv, ''validation.csv'' \<mapsto> validation_csv)) \<and>
     length train_csv = nrows train_data \<and>
     (\<forall>i<nrows train_data.
        train_csv ! i =
          fmt (yt ! i) #
          map (\<lambda>(n, c). field fmt c i) [(n, c) \<leftarrow> columns train_data. n \<notin> set [''y_no'', ''y_yes'']]) \<and>
     length validation_csv = nrows validation_data \<and>
     (\<forall>i<nrows validation_data.
        validation_csv ! i =
          fmt (yv ! i) #
          map (\<lambda>(n, c). field fmt c i)
            [(n, c) \<leftarrow> columns validation_data. n \<notin> set [''y_no'', ''y_yes'']])"
  unfolding write_cell_ok [OF assms(3,4,7,8)] to_csv_plain
  by (intro exI conjI) (rule refl, simp_all add: nrows_def)

theorem files_label_first_no_header_witness:
  "fst (write_cell example_fmt example_train example_validation Map.empty) = Inr () \<and>
   snd (write_cell example_fmt example_train example_validation Map.empty) ''train.csv'' =
     Some [[''0'', ''40'', ''999'', ''1'', ''0'', ''1'', ''0'', ''0'', ''0''],
           [''1'', ''37'', ''6'', ''0'', ''1'', ''0'', ''0'', ''0'', ''1'']] \<and>
   snd (write_cell example_fmt example_train example_validation Map.empty) ''validation.csv'' =
     Some [[''0'', ''57'', ''999'', ''1'', ''1'', ''0'', ''0'', ''1'', ''0'']]"
proof -
  have t: "distinct (col_names example_train)" "well_formed example_train"
    "map_of (columns example_train) ''y_yes'' = Some (NumCol [0, 1])"
    "''y_no'' \<in> set (col_names example_train)"
    by (simp_all add: col_names_def well_formed_def nrows_def example_train_def)
  have v: "distinct (col_names example_validation)" "well_formed example_validation"
    "map_of (columns example_validation) ''y_yes'' = Some (NumCol [0])"
    "''y_no'' \<in> set (col_names example_validation)"
    by (simp_all add: col_names_def well_formed_def nrows_def example_validation_def)
  have nt: "nrows example_train = 2" and nv: "nrows example_validation = 1"
    by (simp_all add: nrows_def example_train_def example_validation_def)
  from files_label_first_no_header [OF t v, of example_fmt Map.empty]
  obtain train_csv validation_csv where
    w: "write_cell example_fmt example_train example_validation Map.empty =
       (Inr (), [''train.csv'' \<mapsto> train_csv, ''validation.csv'' \<mapsto> validation_csv])"
    and lt: "length train_csv = nrows example_train"
    and rt: "\<forall>i<nrows example_train. train_csv ! i =
          example_fmt ([0, 1] ! i) #
          map (\<lambda>(n, c). field example_fmt c i) [(n, c) \<leftarrow> columns example_train. n \<notin> set [''y_no'', ''y_yes'']]"
    and lv: "length validation_csv = nrows example_validation"
    and rv: "\<forall>i<nrows example_validation. validation_csv ! i =
          example_fmt ([0] ! i) #
          map (\<lambda>(n, c). field example_fmt c i)
            [(n, c) \<leftarrow> columns example_validation. n \<notin> set [''y_no'', ''y_yes'']]"
    by blast
  have f: "example_fmt 0 = ''0''" "example_fmt 1 = ''1''" "example_fmt 40 = ''40''"
    "example_fmt 37 = ''37''" "example_fmt 999 = ''999''" "example_fmt 6 = ''6''"
    "example_fmt 57 = ''57''"
    by code_simp+
  from rt have "train_csv ! 0 = [''0'', ''40'', ''999'', ''1'', ''0'', ''1'', ''0'', ''0'', ''0'']"
    "train_csv ! 1 = [''1'', ''37'', ''6'', ''0'', ''1'', ''0'', ''0'', ''0'', ''1'']"
    unfolding nt by (simp_all add: example_train_def f)
  with lt have "train_csv = [[''0'', ''40'', ''999'', ''1'', ''0'', ''1'', ''0'', ''0'', ''0''],
           [''1'', ''37'', ''6'', ''0'', ''1'', ''0'', ''0'', ''0'', ''1'']]"
    unfolding nt by (auto simp: length_Suc_conv numeral_2_eq_2)
  moreover from rv have "validation_csv ! 0 = [''0'', ''57'', ''999'', ''1'', ''1'', ''0'', ''0'', ''1'', ''0'']"
    unfolding nv by (simp add: example_validation_def f)
  with lv have "validation_csv = [[''0'', ''57'', ''999'', ''1'', ''1'', ''0'', ''0'', ''1'', ''0'']]"
    unfolding nv by (auto simp: length_Suc_conv)
  ultimately show ?thesis unfolding w by simp
qed

text \<open>
  Claim C10. For two parts with distinct labels that have the columns \<open>y_yes\<close> and
  \<open>y_no\<close>, the tables written to \<open>train.csv\<close> and \<open>validation.csv\<close> have the label
  \<open>y_yes\<close> once, in first place, followed by the labels of the part other than
  \<open>y_no\<close> and \<open>y_yes\<close>; \<open>y_no\<close> is not among them.
\<close>

theorem files_without_label_copies:
  assumes "distinct (col_names train_data)"
      and "''y_yes'' \<in> set (col_names train_data)" and "''y_no'' \<in> set (col_names train_data)"
      and "distinct (col_names validation_data)"
      and "''y_yes'' \<in> set (col_names validation_data)" and "''y_no'' \<in> set (col_names validation_data)"
  shows "\<exists>t v.
     label_first train_data = Inr t \<and> label_first validation_data = Inr v \<and>
     write_cell fmt train_data validation_data fs =
       (Inr (), fs(''train.csv'' \<mapsto> to_csv fmt t False False,
                   ''validation.csv'' \<mapsto> to_csv fmt v False False)) \<and>
     col_names t = ''y_yes'' # [n \<leftarrow> col_names train_data. n \<notin> set [''y_no'', ''y_yes'']] \<and>
     col_names v = ''y_yes'' # [n \<leftarrow> col_names validation_data. n \<notin> set [''y_no'', ''y_yes'']] \<and>
     count_list (col_names t) ''y_yes'' = 1 \<and> ''y_no'' \<notin> set (col_names t) \<and>
     count_list (col_names v) ''y_yes'' = 1 \<and> ''y_no'' \<notin> set (col_names v)"
proof -
  from assms(2) obtain yt where yt: "map_of (columns train_data) ''y_yes'' = Some yt"
    by (cases "map_of (columns train_data) ''y_yes''")
       (auto simp: col_names_def map_of_eq_None_iff)
  from assms(5) obtain yv where yv: "map_of (columns validation_data) ''y_yes'' = Some yv"
    by (cases "map_of (columns validation_data) ''y_yes''")
       (auto simp: col_names_def map_of_eq_None_iff)
  let ?t = "\<lparr>index = index train_data,
          columns = (''y_yes'', yt) # [(n, c) \<leftarrow> columns train_data. n \<notin> set [''y_no'', ''y_yes'']]\<rparr>"
  let ?v = "\<lparr>index = index validation_data,
          columns = (''y_yes'', yv) # [(n, c) \<leftarrow> columns validation_data. n \<notin> set [''y_no'', ''y_yes'']]\<rparr>"
  have names: "col_names \<lparr>index = ix, columns = (''y_yes'', y) # [(n, c) \<leftarrow> cols. n \<notin> set [''y_no'', ''y_yes'']]\<rparr> =
      ''y_yes'' # [n \<leftarrow> map fst cols. n \<notin> set [''y_no'', ''y_yes'']]" for ix y and cols :: "(string \<times> column) list"
    by (simp add: col_names_def filter_map comp_def case_prod_unfold)
  have cnt: "count_list (''y_yes'' # [n \<leftarrow> ns. n \<notin> set [''y_no'', ''y_yes'']]) ''y_yes'' = 1"
    "''y_no'' \<notin> set (''y_yes'' # [n \<leftarrow> ns. n \<notin> set [''y_no'', ''y_yes'']])" for ns :: "string list"
    by (simp_all add: count_list_0_iff)
  show ?thesis
    apply (rule exI [of _ ?t], rule exI [of _ ?v])
    unfolding names cnt
    using label_first_ok [OF yt assms(3)] label_first_ok [OF yv assms(6)]
      write_cell_ok [OF yt assms(3) yv assms(6), of fmt fs]
    by (simp add: col_names_def)
qed

theorem files_without_label_copies_witness:
  "\<exists>t v.
     label_first example_train = Inr t \<and> label_first example_validation = Inr v \<and>
     col_names t = [''y_yes'', ''age'', ''pdays'', ''no_previous_contact'', ''not_working'',
                    ''job_admin.'', ''job_housemaid'', ''job_retired'', ''job_student''] \<and>
     col_names v = [''y_yes'', ''age'', ''pdays'', ''no_previous_contact'', ''not_working'',
                    ''job_admin.'', ''job_housemaid'', ''job_retired'', ''job_student'']"
proof -
  have t: "distinct (col_names example_train)" "''y_yes'' \<in> set (col_names example_train)"
    "''y_no'' \<in> set (col_names example_train)"
    by (simp_all add: col_names_def example_train_def)
  have v: "distinct (col_names example_validation)" "''y_yes'' \<in> set (col_names example_validation)"
    "''y_no'' \<in> set (col_names example_validation)"
    by (simp_all add: col_names_def example_validation_def)
  have nt: "[n \<leftarrow> col_names example_train. n \<notin> set [''y_no'', ''y_yes'']] =
      [''age'', ''pdays'', ''no_previous_contact'', ''not_working'',
       ''job_admin.'', ''job_housemaid'', ''job_retired'', ''job_student'']"
    by (simp add: col_names_def example_train_def)
  have nv: "[n \<leftarrow> col_names example_validation. n \<notin> set [''y_no'', ''y_yes'']] =
      [''age'', ''pdays'', ''no_previous_contact'', ''not_working'',
       ''job_admin.'', ''job_housemaid'', ''job_retired'', ''job_student'']"
    by (simp add: col_names_def example_validation_def)
  from files_without_label_copies [OF t v, of example_fmt Map.empty]
  show ?thesis unfolding nt nv by blast
qed

end
